theory Spec2Isabelle
  imports Complex_Main
begin

section \<open>Data model\<close>

text \<open>
  The two Sequelize models of \<^verbatim>\<open>src/model/User.ts\<close> and \<^verbatim>\<open>src/model/Article.ts\<close>.
  Both tables are declared \<^verbatim>\<open>timestamps: true, paranoid: true\<close>: every row carries
  \<^verbatim>\<open>createdAt\<close>, \<^verbatim>\<open>updatedAt\<close> and a nullable \<^verbatim>\<open>deletedAt\<close>. A JavaScript \<^verbatim>\<open>Date\<close> is a
  natural number here (a point in time), \<^verbatim>\<open>null\<close> is \<open>None\<close>. Identifiers are JavaScript
  numbers; the router validates them with \<^verbatim>\<open>isInt\<close>, so they are integers here.
\<close>

type_synonym date = nat

datatype user_role = RoleUser | RoleAdmin

record user_row =
  uid :: int
  username :: string
  email :: string
  password :: string
  role :: user_role
  createdAt :: date
  updatedAt :: date
  deletedAt :: "date option"

record article_row =
  aid :: int
  title :: string
  content :: string
  userId :: int
  a_createdAt :: date
  a_updatedAt :: date
  a_deletedAt :: "date option"

text \<open>
  A \<^verbatim>\<open>User\<close> instance as a caller of the service receives it. A finder called with
  \<^verbatim>\<open>attributes: { exclude: ['password'] }\<close> does not select the column, so the instance has
  no \<^verbatim>\<open>password\<close> attribute: \<open>inst_password = None\<close>.
\<close>

record user_inst =
  inst_id :: int
  inst_username :: string
  inst_email :: string
  inst_password :: "string option"
  inst_role :: user_role
  inst_createdAt :: date
  inst_updatedAt :: date
  inst_deletedAt :: "date option"

definition instance_of :: "bool \<Rightarrow> user_row \<Rightarrow> user_inst" where
  "instance_of exclude_password r =
     \<lparr> inst_id = uid r, inst_username = username r, inst_email = email r,
       inst_password = (if exclude_password then None else Some (password r)),
       inst_role = role r, inst_createdAt = createdAt r, inst_updatedAt = updatedAt r,
       inst_deletedAt = deletedAt r \<rparr>"

text \<open>
  The datastore: the two tables, in insertion order, and their AUTO_INCREMENT counters.
\<close>

record store =
  users :: "user_row list"
  articles :: "article_row list"
  users_seq :: int
  articles_seq :: int

definition fresh_store :: store where
  "fresh_store = \<lparr> users = [], articles = [], users_seq = 1, articles_seq = 1 \<rparr>"

text \<open>
  The service throws \<^verbatim>\<open>Error\<close> objects told apart by their message only; every method wraps
  the message with its own prefix. One constructor per inner message, and one per kind of
  error the ORM raises.
\<close>

datatype error =
    EmailRegistered          \<comment> \<open>createUser: the e-mail guard found a row\<close>
  | UsernameUsed             \<comment> \<open>createUser: the username guard found a row\<close>
  | UserNotFound             \<comment> \<open>the user lookup returned null (also createArticle's owner guard)\<close>
  | EmailUsedByOther         \<comment> \<open>updateUser: the e-mail guard found another row\<close>
  | UsernameUsedByOther      \<comment> \<open>updateUser: the username guard found another row\<close>
  | UserNotDeleted           \<comment> \<open>restoreUser on a row whose deletedAt is null\<close>
  | ArticleNotFound          \<comment> \<open>the article lookup returned null\<close>
  | TitleExists              \<comment> \<open>createArticle / updateArticle: the title guard found a row\<close>
  | NoPermissionUpdate       \<comment> \<open>updateArticle: userId given and not the author\<close>
  | NoPermissionDelete       \<comment> \<open>deleteArticle: userId given and not the author\<close>
  | ArticleNotDeleted        \<comment> \<open>restoreArticle on a row whose deletedAt is null\<close>
  | ValidationError          \<comment> \<open>a model validator (len, isEmail) rejected the instance\<close>
  | UniqueConstraintError    \<comment> \<open>the table's unique index rejected the write\<close>
  | DatabaseError            \<comment> \<open>the datastore rejected the statement\<close>

section \<open>The libraries the service calls\<close>

text \<open>
  \<^verbatim>\<open>bcryptjs\<close>, the \<^verbatim>\<open>isEmail\<close> validator, and the datastore's \<^verbatim>\<open>LIKE\<close> operator and string
  ordering (both depend on the collation) are not part of the repository. They are
  parameters of the model. \<^verbatim>\<open>bcrypt.hash(data, 10)\<close> draws a random salt: the salt is an
  argument here. Equality conditions and unique indexes compare strings exactly; a
  collation that identifies more strings (ignoring case, say) is not modelled.
\<close>

record libs =
  bcrypt_hash :: "string \<Rightarrow> string \<Rightarrow> string"      \<comment> \<open>salt, data\<close>
  bcrypt_compare :: "string \<Rightarrow> string \<Rightarrow> bool"     \<comment> \<open>data, hash\<close>
  isEmail :: "string \<Rightarrow> bool"
  sql_like :: "string \<Rightarrow> string \<Rightarrow> bool"           \<comment> \<open>pattern, value\<close>
  str_le :: "string \<Rightarrow> string \<Rightarrow> bool"             \<comment> \<open>ORDER BY on a string column\<close>

section \<open>Sequelize on a paranoid table\<close>

text \<open>
  On a paranoid model every finder and \<^verbatim>\<open>count\<close> adds \<^verbatim>\<open>deletedAt IS NULL\<close> to its
  condition unless the call passes \<^verbatim>\<open>paranoid: false\<close>. The service relies on this itself:
  \<^verbatim>\<open>restoreUser\<close> and \<^verbatim>\<open>forceDeleteUser\<close> pass \<^verbatim>\<open>paranoid: false\<close> to reach deleted rows,
  \<^verbatim>\<open>getArticles\<close> sets it for \<^verbatim>\<open>includeDeleted\<close>, and \<^verbatim>\<open>getArticleStats\<close> computes the
  number of deleted rows as the count with \<^verbatim>\<open>paranoid: false\<close> minus the default count.
\<close>

definition visible :: "bool \<Rightarrow> date option \<Rightarrow> bool" where
  "visible paranoid d = (if paranoid then d = None else True)"

definition User_findOne :: "bool \<Rightarrow> (user_row \<Rightarrow> bool) \<Rightarrow> store \<Rightarrow> user_row option" where
  "User_findOne paranoid cond db =
     find (\<lambda>r. visible paranoid (deletedAt r) \<and> cond r) (users db)"

definition User_findByPk :: "bool \<Rightarrow> store \<Rightarrow> int \<Rightarrow> user_row option" where
  "User_findByPk paranoid db i = User_findOne paranoid (\<lambda>r. uid r = i) db"

definition User_count :: "bool \<Rightarrow> (user_row \<Rightarrow> bool) \<Rightarrow> store \<Rightarrow> nat" where
  "User_count paranoid cond db =
     length (filter (\<lambda>r. visible paranoid (deletedAt r) \<and> cond r) (users db))"

definition Article_findOne :: "bool \<Rightarrow> (article_row \<Rightarrow> bool) \<Rightarrow> store \<Rightarrow> article_row option" where
  "Article_findOne paranoid cond db =
     find (\<lambda>r. visible paranoid (a_deletedAt r) \<and> cond r) (articles db)"

definition Article_findByPk :: "bool \<Rightarrow> store \<Rightarrow> int \<Rightarrow> article_row option" where
  "Article_findByPk paranoid db i = Article_findOne paranoid (\<lambda>r. aid r = i) db"

text \<open>
  AUTO_INCREMENT: the next identifier is the counter, which the engine keeps above every
  identifier in the table.
\<close>

definition next_id :: "int \<Rightarrow> int list \<Rightarrow> int" where
  "next_id seq ids = fold max (map (\<lambda>i. i + 1) ids) seq"

text \<open>
  \<^verbatim>\<open>instance.destroy()\<close> on a paranoid model is an UPDATE of the instance's row that stamps
  \<^verbatim>\<open>deletedAt\<close>; \<^verbatim>\<open>instance.restore()\<close> is the UPDATE that clears it. Both save the
  instance with \<^verbatim>\<open>hooks: false\<close>, so the model's \<^verbatim>\<open>@BeforeUpdate\<close> hook does not run; the save
  bumps \<^verbatim>\<open>updatedAt\<close>.
\<close>

definition User_destroy :: "date \<Rightarrow> user_row \<Rightarrow> store \<Rightarrow> store" where
  "User_destroy now u db =
     db\<lparr>users := map (\<lambda>r. if uid r = uid u then r\<lparr>deletedAt := Some now, updatedAt := now\<rparr> else r)
                     (users db)\<rparr>"

definition User_restore :: "date \<Rightarrow> user_row \<Rightarrow> store \<Rightarrow> store" where
  "User_restore now u db =
     db\<lparr>users := map (\<lambda>r. if uid r = uid u then r\<lparr>deletedAt := None, updatedAt := now\<rparr> else r)
                     (users db)\<rparr>"

definition Article_destroy :: "date \<Rightarrow> article_row \<Rightarrow> store \<Rightarrow> store" where
  "Article_destroy now a db =
     db\<lparr>articles := map (\<lambda>r. if aid r = aid a then r\<lparr>a_deletedAt := Some now, a_updatedAt := now\<rparr> else r)
                        (articles db)\<rparr>"

definition Article_restore :: "date \<Rightarrow> article_row \<Rightarrow> store \<Rightarrow> store" where
  "Article_restore now a db =
     db\<lparr>articles := map (\<lambda>r. if aid r = aid a then r\<lparr>a_deletedAt := None, a_updatedAt := now\<rparr> else r)
                        (articles db)\<rparr>"

text \<open>
  \<^verbatim>\<open>User.create\<close>: the model's validators run first (\<^verbatim>\<open>len: [3, 50]\<close> on the username,
  \<^verbatim>\<open>isEmail\<close> on the e-mail), then the \<^verbatim>\<open>@BeforeCreate\<close> hook \<^verbatim>\<open>User.hashPassword\<close>, which
  hashes the password of every new record, then the INSERT. The table's unique indexes
  \<^verbatim>\<open>username_unique\<close> and \<^verbatim>\<open>email_unique\<close> range over all rows of the table, whatever their
  \<^verbatim>\<open>deletedAt\<close>.
\<close>

definition hashPassword :: "libs \<Rightarrow> string \<Rightarrow> bool \<Rightarrow> string \<Rightarrow> string \<Rightarrow> string" where
  "hashPassword L salt isNewRecord previous pw =
     (if isNewRecord \<or> previous \<noteq> pw then bcrypt_hash L salt pw else pw)"

definition User_create ::
  "libs \<Rightarrow> string \<Rightarrow> date \<Rightarrow> store \<Rightarrow> string \<Rightarrow> string \<Rightarrow> string \<Rightarrow> user_role
     \<Rightarrow> (error + user_row) \<times> store" where
  "User_create L salt now db un em pw rl =
     (if \<not> (3 \<le> length un \<and> length un \<le> 50) \<or> \<not> isEmail L em then (Inl ValidationError, db)
      else
        let pw' = hashPassword L salt True pw pw in
        if list_ex (\<lambda>r. username r = un \<or> email r = em) (users db)
        then (Inl UniqueConstraintError, db)
        else
          let r = \<lparr> uid = next_id (users_seq db) (map uid (users db)), username = un,
                    email = em, password = pw', role = rl, createdAt = now, updatedAt = now,
                    deletedAt = None \<rparr>
          in (Inr r, db\<lparr>users := users db @ [r], users_seq := uid r + 1\<rparr>))"

section \<open>UserService\<close>

record CreateUserData =
  cu_username :: string
  cu_email :: string
  cu_password :: string
  cu_role :: "user_role option"

text \<open>
  \<^verbatim>\<open>createUser\<close>: two guards with the default (paranoid) \<^verbatim>\<open>findOne\<close>, then
  \<^verbatim>\<open>bcrypt.hash(userData.password, 10)\<close> with salt \<open>salt1\<close>, then \<^verbatim>\<open>User.create\<close>, whose hook
  hashes again with salt \<open>salt2\<close>. The instance \<^verbatim>\<open>User.create\<close> returns is returned as it is.
\<close>

definition createUser ::
  "libs \<Rightarrow> string \<Rightarrow> string \<Rightarrow> date \<Rightarrow> store \<Rightarrow> CreateUserData \<Rightarrow> (error + user_inst) \<times> store" where
  "createUser L salt1 salt2 now db userData =
     (case User_findOne True (\<lambda>r. email r = cu_email userData) db of
        Some _ \<Rightarrow> (Inl EmailRegistered, db)
      | None \<Rightarrow>
         (case User_findOne True (\<lambda>r. username r = cu_username userData) db of
            Some _ \<Rightarrow> (Inl UsernameUsed, db)
          | None \<Rightarrow>
             let hashedPassword = bcrypt_hash L salt1 (cu_password userData) in
             (case User_create L salt2 now db (cu_username userData) (cu_email userData)
                     hashedPassword
                     (case cu_role userData of None \<Rightarrow> RoleUser | Some r \<Rightarrow> r) of
                (Inl e, db') \<Rightarrow> (Inl e, db')
              | (Inr r, db') \<Rightarrow> (Inr (instance_of False r), db'))))"

definition getUserById :: "store \<Rightarrow> int \<Rightarrow> user_inst option" where
  "getUserById db i = map_option (instance_of True) (User_findByPk True db i)"

text \<open>\<^verbatim>\<open>deleteUser\<close>: the default \<^verbatim>\<open>findByPk\<close>, then \<^verbatim>\<open>user.destroy()\<close>.\<close>

definition deleteUser :: "date \<Rightarrow> store \<Rightarrow> int \<Rightarrow> (error + bool) \<times> store" where
  "deleteUser now db i =
     (case User_findByPk True db i of
        None \<Rightarrow> (Inl UserNotFound, db)
      | Some user \<Rightarrow> (Inr True, User_destroy now user db))"

text \<open>
  \<^verbatim>\<open>restoreUser\<close>: \<^verbatim>\<open>findByPk(id, { paranoid: false })\<close>, the test \<^verbatim>\<open>!user.deletedAt\<close> (a
  \<^verbatim>\<open>Date\<close> object is truthy, \<^verbatim>\<open>null\<close> is not), \<^verbatim>\<open>user.restore()\<close>, and the default
  \<^verbatim>\<open>findByPk\<close> without the password for the result.
\<close>

definition restoreUser :: "date \<Rightarrow> store \<Rightarrow> int \<Rightarrow> (error + user_inst option) \<times> store" where
  "restoreUser now db i =
     (case User_findByPk False db i of
        None \<Rightarrow> (Inl UserNotFound, db)
      | Some user \<Rightarrow>
          if deletedAt user = None then (Inl UserNotDeleted, db)
          else
            let db' = User_restore now user db
            in (Inr (map_option (instance_of True) (User_findByPk True db' i)), db'))"

text \<open>
  \<^verbatim>\<open>validatePassword\<close>: the default \<^verbatim>\<open>findOne\<close> by e-mail, \<^verbatim>\<open>bcrypt.compare\<close> against the
  stored hash, and the default \<^verbatim>\<open>findByPk\<close> without the password for the result; \<^verbatim>\<open>null\<close>
  is \<open>None\<close>.
\<close>

definition validatePassword :: "libs \<Rightarrow> store \<Rightarrow> string \<Rightarrow> string \<Rightarrow> user_inst option" where
  "validatePassword L db em pw =
     (case User_findOne True (\<lambda>r. email r = em) db of
        None \<Rightarrow> None
      | Some user \<Rightarrow>
          if \<not> bcrypt_compare L pw (password user) then None
          else map_option (instance_of True) (User_findByPk True db (uid user)))"

record user_stats =
  total :: nat
  active :: nat
  deleted :: nat
  admins :: nat
  regular :: nat

definition getUserStats :: "store \<Rightarrow> user_stats" where
  "getUserStats db =
     \<lparr> total = User_count True (\<lambda>_. True) db,
       active = User_count True (\<lambda>r. deletedAt r = None) db,
       deleted = User_count False (\<lambda>r. deletedAt r \<noteq> None) db,
       admins = User_count True (\<lambda>r. role r = RoleAdmin) db,
       regular = User_count True (\<lambda>r. role r = RoleUser) db \<rparr>"


text \<open>
  A JavaScript condition on a value tests its truthiness: \<^verbatim>\<open>undefined\<close>, the number 0 and
  the empty string are falsy. An optional argument is an \<open>option\<close>; \<open>None\<close> is
  \<^verbatim>\<open>undefined\<close>.
\<close>

definition truthy_num :: "int option \<Rightarrow> bool" where
  "truthy_num x = (case x of None \<Rightarrow> False | Some n \<Rightarrow> n \<noteq> 0)"

definition truthy_str :: "string option \<Rightarrow> bool" where
  "truthy_str x = (case x of None \<Rightarrow> False | Some s \<Rightarrow> s \<noteq> [])"

text \<open>
  \<^verbatim>\<open>getUsers\<close>. The options are destructured with defaults, which apply to an absent
  (\<^verbatim>\<open>undefined\<close>) option only; \<^verbatim>\<open>page\<close> and \<^verbatim>\<open>limit\<close> are used as they come (integers
  here: the only caller, \<^verbatim>\<open>UserController.getUsers\<close>, passes nonzero integers).
  \<^verbatim>\<open>findAndCountAll\<close> counts the rows matching the condition (under the paranoid scope)
  and selects them with ORDER BY, LIMIT and OFFSET; the datastore (MySQL) rejects a negative
  LIMIT or OFFSET. \<^verbatim>\<open>Math.ceil(total / limit)\<close> is computed in JavaScript numbers:
  division by zero gives \<^verbatim>\<open>Infinity\<close>, or \<^verbatim>\<open>NaN\<close> for 0/0.
\<close>

datatype sort_field = SortId | SortUsername | SortEmail | SortCreatedAt

datatype sort_order = ASC | DESC

record UserQueryOptions =
  q_page :: "int option"
  q_limit :: "int option"
  q_search :: "string option"
  q_role :: "user_role option"
  q_sortBy :: "sort_field option"
  q_sortOrder :: "sort_order option"

datatype jsnum = Finite int | Infinity | NaN

definition js_ceil_div :: "nat \<Rightarrow> int \<Rightarrow> jsnum" where
  "js_ceil_div n d =
     (if d = 0 then (if n = 0 then NaN else Infinity)
      else Finite (- ((- int n) div d)))"

record pagination =
  p_total :: nat
  p_page :: int
  p_limit :: int
  p_totalPages :: jsnum

record user_page =
  pg_users :: "user_inst list"
  pg_pagination :: pagination

fun insert_by :: "('a \<Rightarrow> 'a \<Rightarrow> bool) \<Rightarrow> 'a \<Rightarrow> 'a list \<Rightarrow> 'a list" where
  "insert_by le x [] = [x]"
| "insert_by le x (y # ys) = (if le x y then x # y # ys else y # insert_by le x ys)"

definition order_by :: "('a \<Rightarrow> 'a \<Rightarrow> bool) \<Rightarrow> 'a list \<Rightarrow> 'a list" where
  "order_by le xs = foldr (insert_by le) xs []"

definition user_key_le :: "libs \<Rightarrow> sort_field \<Rightarrow> user_row \<Rightarrow> user_row \<Rightarrow> bool" where
  "user_key_le L f a b =
     (case f of
        SortId \<Rightarrow> uid a \<le> uid b
      | SortUsername \<Rightarrow> str_le L (username a) (username b)
      | SortEmail \<Rightarrow> str_le L (email a) (email b)
      | SortCreatedAt \<Rightarrow> createdAt a \<le> createdAt b)"

definition user_order :: "libs \<Rightarrow> sort_field \<Rightarrow> sort_order \<Rightarrow> user_row \<Rightarrow> user_row \<Rightarrow> bool" where
  "user_order L f ord a b = (case ord of ASC \<Rightarrow> user_key_le L f a b | DESC \<Rightarrow> user_key_le L f b a)"

definition User_findAndCountAll ::
  "libs \<Rightarrow> (user_row \<Rightarrow> bool) \<Rightarrow> sort_field \<Rightarrow> sort_order \<Rightarrow> int \<Rightarrow> int \<Rightarrow> store
     \<Rightarrow> error + (user_row list \<times> nat)" where
  "User_findAndCountAll L cond f ord limit offset db =
     (let matching = filter (\<lambda>r. visible True (deletedAt r) \<and> cond r) (users db) in
      if limit < 0 \<or> offset < 0 then Inl DatabaseError
      else Inr (take (nat limit) (drop (nat offset) (order_by (user_order L f ord) matching)),
                length matching))"

definition whereConditions :: "libs \<Rightarrow> string option \<Rightarrow> user_role option \<Rightarrow> user_row \<Rightarrow> bool" where
  "whereConditions L search rl r =
     ((if truthy_str search
       then sql_like L (''%'' @ the search @ ''%'') (username r)
            \<or> sql_like L (''%'' @ the search @ ''%'') (email r)
       else True)
      \<and> (case rl of None \<Rightarrow> True | Some x \<Rightarrow> role r = x))"

definition getUsers :: "libs \<Rightarrow> store \<Rightarrow> UserQueryOptions \<Rightarrow> error + user_page" where
  "getUsers L db options =
     (let page = (case q_page options of None \<Rightarrow> 1 | Some p \<Rightarrow> p);
          limit = (case q_limit options of None \<Rightarrow> 10 | Some l \<Rightarrow> l);
          sortBy = (case q_sortBy options of None \<Rightarrow> SortCreatedAt | Some f \<Rightarrow> f);
          sortOrder = (case q_sortOrder options of None \<Rightarrow> DESC | Some d \<Rightarrow> d);
          offset = (page - 1) * limit
      in case User_findAndCountAll L (whereConditions L (q_search options) (q_role options))
                sortBy sortOrder limit offset db of
           Inl e \<Rightarrow> Inl e
         | Inr (rows, count) \<Rightarrow>
             Inr \<lparr> pg_users = map (instance_of True) rows,
                   pg_pagination = \<lparr> p_total = count, p_page = page, p_limit = limit,
                                     p_totalPages = js_ceil_div count limit \<rparr> \<rparr>)"

section \<open>UserController.getUsers\<close>

text \<open>
  JavaScript's \<^verbatim>\<open>parseInt\<close> with no radix: leading white space is skipped, a sign is read,
  a \<^verbatim>\<open>0x\<close> prefix selects radix 16, and the longest prefix of digits is the value; with no
  digit the result is \<^verbatim>\<open>NaN\<close>, as it is for \<^verbatim>\<open>undefined\<close>. A query parameter is a string
  or absent.
\<close>

datatype js_int = Num int | NotNum

definition is_space :: "char \<Rightarrow> bool" where
  "is_space c = ((of_char c :: nat) = 32 \<or> (9 \<le> (of_char c :: nat) \<and> (of_char c :: nat) \<le> 13))"

definition digit_of :: "char \<Rightarrow> nat option" where
  "digit_of c =
     (let n = (of_char c :: nat) in
      if 48 \<le> n \<and> n \<le> 57 then Some (n - 48)
      else if 97 \<le> n \<and> n \<le> 122 then Some (n - 87)
      else if 65 \<le> n \<and> n \<le> 90 then Some (n - 55)
      else None)"

fun parse_digits :: "nat \<Rightarrow> string \<Rightarrow> nat option \<Rightarrow> nat option" where
  "parse_digits radix [] acc = acc"
| "parse_digits radix (c # cs) acc =
     (case digit_of c of
        None \<Rightarrow> acc
      | Some d \<Rightarrow>
          if d < radix
          then parse_digits radix cs (Some (radix * (case acc of None \<Rightarrow> 0 | Some a \<Rightarrow> a) + d))
          else acc)"

definition parseInt :: "string option \<Rightarrow> js_int" where
  "parseInt x =
     (case x of
        None \<Rightarrow> NotNum
      | Some s \<Rightarrow>
          let t = dropWhile is_space s;
              negative = (take 1 t = ''-'');
              u = (if take 1 t = ''-'' \<or> take 1 t = ''+'' then drop 1 t else t);
              hex = (take 2 u = ''0x'' \<or> take 2 u = ''0X'')
          in case parse_digits (if hex then 16 else 10) (if hex then drop 2 u else u) None of
               None \<Rightarrow> NotNum
             | Some n \<Rightarrow> Num (if negative then - int n else int n))"

text \<open>\<^verbatim>\<open>n || d\<close> on a number: \<^verbatim>\<open>NaN\<close> and 0 are falsy.\<close>

definition or_num :: "js_int \<Rightarrow> int \<Rightarrow> int" where
  "or_num x d = (case x of NotNum \<Rightarrow> d | Num n \<Rightarrow> if n = 0 then d else n)"

text \<open>
  \<^verbatim>\<open>UserController.getUsers\<close> builds the options from the query string and calls the
  service; it does not look at \<^verbatim>\<open>validationResult\<close>, so the router's rules on the query
  (\<^verbatim>\<open>isInt({ min: 1 })\<close> on \<^verbatim>\<open>page\<close>, \<^verbatim>\<open>isInt({ min: 1, max: 100 })\<close> on \<^verbatim>\<open>limit\<close>) reject
  nothing. The role and the sort options are casts of the query strings; they are taken
  within their declared types here. The response carries the service's result, or its
  error.
\<close>

record user_query =
  uq_page :: "string option"
  uq_limit :: "string option"
  uq_search :: "string option"
  uq_role :: "user_role option"
  uq_sortBy :: "sort_field option"
  uq_sortOrder :: "sort_order option"

definition UserController_getUsers :: "libs \<Rightarrow> store \<Rightarrow> user_query \<Rightarrow> error + user_page" where
  "UserController_getUsers L db query =
     getUsers L db
       \<lparr> q_page = Some (or_num (parseInt (uq_page query)) 1),
         q_limit = Some (or_num (parseInt (uq_limit query)) 10),
         q_search = uq_search query,
         q_role = uq_role query,
         q_sortBy = Some (case uq_sortBy query of None \<Rightarrow> SortCreatedAt | Some f \<Rightarrow> f),
         q_sortOrder = Some (case uq_sortOrder query of None \<Rightarrow> DESC | Some d \<Rightarrow> d) \<rparr>"

section \<open>UserService.updateUser\<close>

text \<open>
  \<^verbatim>\<open>updateUser\<close>. \<^verbatim>\<open>user.update(updateData)\<close> sets the attributes the data carry, validates
  the changed ones, runs the \<^verbatim>\<open>@BeforeUpdate\<close> hook \<^verbatim>\<open>User.hashPassword\<close> (which hashes the
  password when it differs from the previous one) and writes the row; a save with nothing
  changed writes nothing.
\<close>

record UpdateUserData =
  uu_username :: "string option"
  uu_email :: "string option"
  uu_password :: "string option"
  uu_role :: "user_role option"

definition User_update ::
  "libs \<Rightarrow> string \<Rightarrow> date \<Rightarrow> user_row \<Rightarrow> UpdateUserData \<Rightarrow> store \<Rightarrow> (error + user_row) \<times> store" where
  "User_update L salt now u d db =
     (let un = (case uu_username d of None \<Rightarrow> username u | Some x \<Rightarrow> x);
          em = (case uu_email d of None \<Rightarrow> email u | Some x \<Rightarrow> x);
          pw = (case uu_password d of None \<Rightarrow> password u | Some x \<Rightarrow> x);
          rl = (case uu_role d of None \<Rightarrow> role u | Some x \<Rightarrow> x)
      in if un = username u \<and> em = email u \<and> pw = password u \<and> rl = role u then (Inr u, db)
         else if (un \<noteq> username u \<and> \<not> (3 \<le> length un \<and> length un \<le> 50))
                 \<or> (em \<noteq> email u \<and> \<not> isEmail L em)
         then (Inl ValidationError, db)
         else
           let pw' = hashPassword L salt False (password u) pw in
           if list_ex (\<lambda>r. uid r \<noteq> uid u
                            \<and> ((un \<noteq> username u \<and> username r = un)
                                \<or> (em \<noteq> email u \<and> email r = em))) (users db)
           then (Inl UniqueConstraintError, db)
           else
             (Inr (u\<lparr>username := un, email := em, password := pw', role := rl, updatedAt := now\<rparr>),
              db\<lparr>users := map (\<lambda>r. if uid r = uid u
                                     then r\<lparr>username := un, email := em, password := pw',
                                            role := rl, updatedAt := now\<rparr>
                                     else r) (users db)\<rparr>))"

definition updateUser ::
  "libs \<Rightarrow> string \<Rightarrow> string \<Rightarrow> date \<Rightarrow> store \<Rightarrow> int \<Rightarrow> UpdateUserData
     \<Rightarrow> (error + user_inst option) \<times> store" where
  "updateUser L salt1 salt2 now db i updateData =
     (case User_findByPk True db i of
        None \<Rightarrow> (Inl UserNotFound, db)
      | Some user \<Rightarrow>
          if truthy_str (uu_email updateData) \<and> the (uu_email updateData) \<noteq> email user
             \<and> User_findOne True (\<lambda>r. email r = the (uu_email updateData) \<and> uid r \<noteq> i) db \<noteq> None
          then (Inl EmailUsedByOther, db)
          else if truthy_str (uu_username updateData)
                  \<and> the (uu_username updateData) \<noteq> username user
                  \<and> User_findOne True
                       (\<lambda>r. username r = the (uu_username updateData) \<and> uid r \<noteq> i) db \<noteq> None
          then (Inl UsernameUsedByOther, db)
          else
            let updateData' =
                  (if truthy_str (uu_password updateData)
                   then updateData\<lparr>uu_password :=
                                     Some (bcrypt_hash L salt1 (the (uu_password updateData)))\<rparr>
                   else updateData)
            in (case User_update L salt2 now user updateData' db of
                  (Inl e, db') \<Rightarrow> (Inl e, db')
                | (Inr _, db') \<Rightarrow>
                    (Inr (map_option (instance_of True) (User_findByPk True db' i)), db')))"

section \<open>ArticleService\<close>

text \<open>
  \<^verbatim>\<open>Article.create\<close>: the \<^verbatim>\<open>len: [3, 50]\<close> validator on the title, then the INSERT, which the
  unique indexes \<^verbatim>\<open>article_title\<close> and \<^verbatim>\<open>article_content\<close> (over all rows, whatever their
  \<^verbatim>\<open>deletedAt\<close>) and the foreign key on \<^verbatim>\<open>userId\<close> can reject.
\<close>

definition Article_create ::
  "date \<Rightarrow> store \<Rightarrow> string \<Rightarrow> string \<Rightarrow> int \<Rightarrow> (error + article_row) \<times> store" where
  "Article_create now db ttl cnt owner =
     (if \<not> (3 \<le> length ttl \<and> length ttl \<le> 50) then (Inl ValidationError, db)
      else if list_ex (\<lambda>r. title r = ttl \<or> content r = cnt) (articles db)
      then (Inl UniqueConstraintError, db)
      else if \<not> list_ex (\<lambda>u. uid u = owner) (users db) then (Inl DatabaseError, db)
      else
        let r = \<lparr> aid = next_id (articles_seq db) (map aid (articles db)), title = ttl,
                  content = cnt, userId = owner, a_createdAt = now, a_updatedAt = now,
                  a_deletedAt = None \<rparr>
        in (Inr r, db\<lparr>articles := articles db @ [r], articles_seq := aid r + 1\<rparr>))"

record CreateArticleData =
  ca_title :: string
  ca_content :: string
  ca_userId :: int

definition createArticle ::
  "date \<Rightarrow> store \<Rightarrow> CreateArticleData \<Rightarrow> (error + article_row) \<times> store" where
  "createArticle now db articleData =
     (case User_findByPk True db (ca_userId articleData) of
        None \<Rightarrow> (Inl UserNotFound, db)
      | Some _ \<Rightarrow>
         (case Article_findOne True (\<lambda>r. title r = ca_title articleData) db of
            Some _ \<Rightarrow> (Inl TitleExists, db)
          | None \<Rightarrow>
              Article_create now db (ca_title articleData) (ca_content articleData)
                (ca_userId articleData)))"

record UpdateArticleData =
  ua_title :: "string option"
  ua_content :: "string option"

definition Article_update ::
  "date \<Rightarrow> article_row \<Rightarrow> UpdateArticleData \<Rightarrow> store \<Rightarrow> (error + article_row) \<times> store" where
  "Article_update now a d db =
     (let ttl = (case ua_title d of None \<Rightarrow> title a | Some x \<Rightarrow> x);
          cnt = (case ua_content d of None \<Rightarrow> content a | Some x \<Rightarrow> x)
      in if ttl = title a \<and> cnt = content a then (Inr a, db)
         else if ttl \<noteq> title a \<and> \<not> (3 \<le> length ttl \<and> length ttl \<le> 50)
         then (Inl ValidationError, db)
         else if list_ex (\<lambda>r. aid r \<noteq> aid a
                               \<and> ((ttl \<noteq> title a \<and> title r = ttl)
                                   \<or> (cnt \<noteq> content a \<and> content r = cnt))) (articles db)
         then (Inl UniqueConstraintError, db)
         else
           (Inr (a\<lparr>title := ttl, content := cnt, a_updatedAt := now\<rparr>),
            db\<lparr>articles := map (\<lambda>r. if aid r = aid a
                                      then r\<lparr>title := ttl, content := cnt, a_updatedAt := now\<rparr>
                                      else r) (articles db)\<rparr>))"

text \<open>
  \<^verbatim>\<open>updateArticle\<close> and \<^verbatim>\<open>deleteArticle\<close> take an optional \<^verbatim>\<open>userId\<close>; the ownership test is
  \<^verbatim>\<open>userId && article.userId !== userId\<close>.
\<close>

definition not_author :: "int option \<Rightarrow> article_row \<Rightarrow> bool" where
  "not_author actor article = (truthy_num actor \<and> userId article \<noteq> the actor)"

definition updateArticle ::
  "date \<Rightarrow> store \<Rightarrow> int \<Rightarrow> UpdateArticleData \<Rightarrow> int option \<Rightarrow> (error + article_row) \<times> store" where
  "updateArticle now db i updateData actor =
     (case Article_findByPk True db i of
        None \<Rightarrow> (Inl ArticleNotFound, db)
      | Some article \<Rightarrow>
          if not_author actor article then (Inl NoPermissionUpdate, db)
          else if truthy_str (ua_title updateData)
                  \<and> the (ua_title updateData) \<noteq> title article
                  \<and> Article_findOne True
                       (\<lambda>r. title r = the (ua_title updateData) \<and> aid r \<noteq> i) db \<noteq> None
          then (Inl TitleExists, db)
          else Article_update now article updateData db)"

definition deleteArticle :: "date \<Rightarrow> store \<Rightarrow> int \<Rightarrow> int option \<Rightarrow> (error + unit) \<times> store" where
  "deleteArticle now db i actor =
     (case Article_findByPk True db i of
        None \<Rightarrow> (Inl ArticleNotFound, db)
      | Some article \<Rightarrow>
          if not_author actor article then (Inl NoPermissionDelete, db)
          else (Inr (), Article_destroy now article db))"

text \<open>
  \<^verbatim>\<open>forceDeleteArticle\<close>: \<^verbatim>\<open>findByPk(id, { paranoid: false })\<close>, then
  \<^verbatim>\<open>destroy({ force: true })\<close>, the DELETE of the row.
\<close>

definition forceDeleteArticle :: "store \<Rightarrow> int \<Rightarrow> (error + unit) \<times> store" where
  "forceDeleteArticle db i =
     (case Article_findByPk False db i of
        None \<Rightarrow> (Inl ArticleNotFound, db)
      | Some article \<Rightarrow>
          (Inr (), db\<lparr>articles := filter (\<lambda>r. aid r \<noteq> aid article) (articles db)\<rparr>))"

text \<open>
  \<^verbatim>\<open>restoreArticle\<close> returns the instance it restored: the row found, with \<^verbatim>\<open>deletedAt\<close>
  cleared.
\<close>

definition restoreArticle :: "date \<Rightarrow> store \<Rightarrow> int \<Rightarrow> (error + article_row) \<times> store" where
  "restoreArticle now db i =
     (case Article_findByPk False db i of
        None \<Rightarrow> (Inl ArticleNotFound, db)
      | Some article \<Rightarrow>
          if a_deletedAt article = None then (Inl ArticleNotDeleted, db)
          else (Inr (article\<lparr>a_deletedAt := None, a_updatedAt := now\<rparr>),
                Article_restore now article db))"

text \<open>
  \<^verbatim>\<open>getArticles\<close>. \<^verbatim>\<open>ArticleController.getArticles\<close> passes \<^verbatim>\<open>parseInt\<close> of a non-empty
  query string, so \<^verbatim>\<open>page\<close>, \<^verbatim>\<open>limit\<close> and \<^verbatim>\<open>userId\<close> are integers or \<^verbatim>\<open>NaN\<close>; arithmetic
  on \<^verbatim>\<open>NaN\<close> gives \<^verbatim>\<open>NaN\<close>. The listing joins the owner (\<^verbatim>\<open>id\<close>, \<^verbatim>\<open>username\<close>, \<^verbatim>\<open>email\<close>)
  under the owner's paranoid scope. The datastore rejects a LIMIT or OFFSET that is
  negative or not a number.
\<close>

datatype article_sort = SortArticleId | SortTitle | SortArticleCreatedAt | SortUpdatedAt

record ArticleQueryOptions =
  aq_page :: "js_int option"
  aq_limit :: "js_int option"
  aq_userId :: "js_int option"
  aq_title :: "string option"
  aq_sortBy :: "article_sort option"
  aq_sortOrder :: "sort_order option"
  aq_includeDeleted :: "bool option"

record article_pagination =
  ap_total :: nat
  ap_page :: js_int
  ap_limit :: js_int
  ap_totalPages :: jsnum

record article_listed =
  al_article :: article_row
  al_user :: "(int \<times> string \<times> string) option"

record article_page =
  pg_articles :: "article_listed list"
  pg_article_pagination :: article_pagination

definition js_offset :: "js_int \<Rightarrow> js_int \<Rightarrow> js_int" where
  "js_offset page limit =
     (case (page, limit) of (Num p, Num l) \<Rightarrow> Num ((p - 1) * l) | _ \<Rightarrow> NotNum)"

definition js_ceil_div_int :: "nat \<Rightarrow> js_int \<Rightarrow> jsnum" where
  "js_ceil_div_int n limit = (case limit of Num l \<Rightarrow> js_ceil_div n l | NotNum \<Rightarrow> NaN)"

definition truthy_js_int :: "js_int option \<Rightarrow> bool" where
  "truthy_js_int x = (case x of Some (Num n) \<Rightarrow> n \<noteq> 0 | _ \<Rightarrow> False)"

definition article_key_le :: "libs \<Rightarrow> article_sort \<Rightarrow> article_row \<Rightarrow> article_row \<Rightarrow> bool" where
  "article_key_le L f a b =
     (case f of
        SortArticleId \<Rightarrow> aid a \<le> aid b
      | SortTitle \<Rightarrow> str_le L (title a) (title b)
      | SortArticleCreatedAt \<Rightarrow> a_createdAt a \<le> a_createdAt b
      | SortUpdatedAt \<Rightarrow> a_updatedAt a \<le> a_updatedAt b)"

definition article_order ::
  "libs \<Rightarrow> article_sort \<Rightarrow> sort_order \<Rightarrow> article_row \<Rightarrow> article_row \<Rightarrow> bool" where
  "article_order L f ord a b =
     (case ord of ASC \<Rightarrow> article_key_le L f a b | DESC \<Rightarrow> article_key_le L f b a)"

definition include_user :: "store \<Rightarrow> article_row \<Rightarrow> article_listed" where
  "include_user db a =
     \<lparr> al_article = a,
       al_user = map_option (\<lambda>u. (uid u, username u, email u)) (User_findByPk True db (userId a)) \<rparr>"

definition Article_findAndCountAll ::
  "libs \<Rightarrow> bool \<Rightarrow> (article_row \<Rightarrow> bool) \<Rightarrow> article_sort \<Rightarrow> sort_order \<Rightarrow> js_int \<Rightarrow> js_int
     \<Rightarrow> store \<Rightarrow> error + (article_listed list \<times> nat)" where
  "Article_findAndCountAll L paranoid cond f ord limit offset db =
     (let matching = filter (\<lambda>r. visible paranoid (a_deletedAt r) \<and> cond r) (articles db) in
      case (limit, offset) of
        (Num l, Num off) \<Rightarrow>
          if l < 0 \<or> off < 0 then Inl DatabaseError
          else Inr (map (include_user db)
                      (take (nat l) (drop (nat off) (order_by (article_order L f ord) matching))),
                    length matching)
      | _ \<Rightarrow> Inl DatabaseError)"

definition article_whereConditions ::
  "libs \<Rightarrow> js_int option \<Rightarrow> string option \<Rightarrow> article_row \<Rightarrow> bool" where
  "article_whereConditions L owner ttl r =
     ((if truthy_js_int owner then Num (userId r) = the owner else True)
      \<and> (if truthy_str ttl then sql_like L (''%'' @ the ttl @ ''%'') (title r) else True))"

definition getArticles :: "libs \<Rightarrow> store \<Rightarrow> ArticleQueryOptions \<Rightarrow> error + article_page" where
  "getArticles L db options =
     (let page = (case aq_page options of None \<Rightarrow> Num 1 | Some p \<Rightarrow> p);
          limit = (case aq_limit options of None \<Rightarrow> Num 10 | Some l \<Rightarrow> l);
          sortBy = (case aq_sortBy options of None \<Rightarrow> SortArticleCreatedAt | Some f \<Rightarrow> f);
          sortOrder = (case aq_sortOrder options of None \<Rightarrow> DESC | Some d \<Rightarrow> d);
          includeDeleted = (case aq_includeDeleted options of None \<Rightarrow> False | Some b \<Rightarrow> b);
          offset = js_offset page limit
      in case Article_findAndCountAll L (\<not> includeDeleted)
                (article_whereConditions L (aq_userId options) (aq_title options))
                sortBy sortOrder limit offset db of
           Inl e \<Rightarrow> Inl e
         | Inr (rows, count) \<Rightarrow>
             Inr \<lparr> pg_articles = rows,
                   pg_article_pagination =
                     \<lparr> ap_total = count, ap_page = page, ap_limit = limit,
                       ap_totalPages = js_ceil_div_int count limit \<rparr> \<rparr>)"

text \<open>
  \<^verbatim>\<open>ArticleController.getArticles\<close>: \<^verbatim>\<open>req.query.page ? parseInt(...) : 1\<close> and the same for
  \<^verbatim>\<open>limit\<close> with 10; a query string is truthy when it is not empty. It does not look at
  \<^verbatim>\<open>validationResult\<close> either.
\<close>

record article_query =
  rq_page :: "string option"
  rq_limit :: "string option"
  rq_userId :: "string option"
  rq_title :: "string option"
  rq_sortBy :: "article_sort option"
  rq_sortOrder :: "sort_order option"
  rq_includeDeleted :: "string option"

definition ArticleController_getArticles ::
  "libs \<Rightarrow> store \<Rightarrow> article_query \<Rightarrow> error + article_page" where
  "ArticleController_getArticles L db query =
     getArticles L db
       \<lparr> aq_page = Some (if truthy_str (rq_page query) then parseInt (rq_page query) else Num 1),
         aq_limit = Some (if truthy_str (rq_limit query) then parseInt (rq_limit query)
                          else Num 10),
         aq_userId = (if truthy_str (rq_userId query) then Some (parseInt (rq_userId query))
                      else None),
         aq_title = rq_title query,
         aq_sortBy = Some (case rq_sortBy query of None \<Rightarrow> SortArticleCreatedAt | Some f \<Rightarrow> f),
         aq_sortOrder = Some (case rq_sortOrder query of None \<Rightarrow> DESC | Some d \<Rightarrow> d),
         aq_includeDeleted = Some (rq_includeDeleted query = Some ''true'') \<rparr>"

text \<open>
  The lifecycle state of the record with a given identifier: Purged is the absence of a
  row (never created, or physically removed). \<^verbatim>\<open>forceDeleteUser\<close> is not modelled: what
  the DELETE of an account does to the documents that reference it is decided by the
  foreign key's action, which the repository does not set.
\<close>

datatype lifecycle = Active | SoftDeleted | Purged

definition user_state :: "store \<Rightarrow> int \<Rightarrow> lifecycle" where
  "user_state db i =
     (case find (\<lambda>r. uid r = i) (users db) of
        None \<Rightarrow> Purged
      | Some r \<Rightarrow> (if deletedAt r = None then Active else SoftDeleted))"

definition article_state :: "store \<Rightarrow> int \<Rightarrow> lifecycle" where
  "article_state db i =
     (case find (\<lambda>r. aid r = i) (articles db) of
        None \<Rightarrow> Purged
      | Some r \<Rightarrow> (if a_deletedAt r = None then Active else SoftDeleted))"

text \<open>
  The primary keys identify rows; the stores the service builds keep this.
\<close>

definition pk_unique :: "store \<Rightarrow> bool" where
  "pk_unique db = (distinct (map uid (users db)) \<and> distinct (map aid (articles db)))"

text \<open>
  The contract of the hashing library the model relies on when it must: a hash verifies
  against the data it was computed from and against no other data, and no data is its own
  hash.
\<close>

definition bcrypt_ok :: "libs \<Rightarrow> bool" where
  "bcrypt_ok L =
     ((\<forall>s d. bcrypt_compare L d (bcrypt_hash L s d))
      \<and> (\<forall>s d d'. bcrypt_compare L d' (bcrypt_hash L s d) \<longrightarrow> d' = d)
      \<and> (\<forall>s d. bcrypt_hash L s d \<noteq> d))"

section \<open>Concrete libraries and stores for evaluation\<close>

text \<open>
  A stand-in for \<^verbatim>\<open>bcryptjs\<close> with the shape of its output: a version and cost prefix, a
  22-character salt, then the digest (here the data itself, so that distinct data give
  distinct hashes). \<open>demo_compare\<close> checks the prefix and recomputes the digest.
\<close>

definition demo_salt :: "string \<Rightarrow> string" where
  "demo_salt s = take 22 (s @ replicate 22 (CHR ''.''))"

definition demo_hash :: "string \<Rightarrow> string \<Rightarrow> string" where
  "demo_hash s d = ''$2a$10$'' @ demo_salt s @ d"

definition demo_compare :: "string \<Rightarrow> string \<Rightarrow> bool" where
  "demo_compare d h = (take 7 h = ''$2a$10$'' \<and> 29 \<le> length h \<and> drop 29 h = d)"

fun demo_str_le :: "string \<Rightarrow> string \<Rightarrow> bool" where
  "demo_str_le [] _ = True"
| "demo_str_le (c # cs) [] = False"
| "demo_str_le (c # cs) (d # ds) =
     ((of_char c :: nat) < of_char d \<or> (c = d \<and> demo_str_le cs ds))"

fun contains :: "string \<Rightarrow> string \<Rightarrow> bool" where
  "contains k [] = (k = [])"
| "contains k (c # cs) = (take (length k) (c # cs) = k \<or> contains k cs)"

definition demo_like :: "string \<Rightarrow> string \<Rightarrow> bool" where
  "demo_like pat v = contains (butlast (tl pat)) v"

definition demo_libs :: libs where
  "demo_libs = \<lparr> bcrypt_hash = demo_hash, bcrypt_compare = demo_compare,
                  isEmail = (\<lambda>s. CHR ''@'' \<in> set s), sql_like = demo_like,
                  str_le = demo_str_le \<rparr>"

text \<open>
  A store with an active account (alice, 1), a soft-deleted account (bob, 2), an active
  document (1) and a soft-deleted document (2), both owned by alice.
\<close>

definition alice :: user_row where
  "alice = \<lparr> uid = 1, username = ''alice'', email = ''a@x.com'',
             password = demo_hash ''s1'' ''Secret1A'', role = RoleUser, createdAt = 1,
             updatedAt = 1, deletedAt = None \<rparr>"

definition bob :: user_row where
  "bob = \<lparr> uid = 2, username = ''bob'', email = ''b@x.com'',
           password = demo_hash ''s2'' ''Secret2B'', role = RoleAdmin, createdAt = 2,
           updatedAt = 5, deletedAt = Some 5 \<rparr>"

definition doc1 :: article_row where
  "doc1 = \<lparr> aid = 1, title = ''T1'', content = ''first body'', userId = 1, a_createdAt = 3,
            a_updatedAt = 3, a_deletedAt = None \<rparr>"

definition doc2 :: article_row where
  "doc2 = \<lparr> aid = 2, title = ''Old'', content = ''second body'', userId = 1, a_createdAt = 4,
            a_updatedAt = 6, a_deletedAt = Some 6 \<rparr>"

definition alice_data :: CreateUserData where
  "alice_data = \<lparr> cu_username = ''alice'', cu_email = ''a@x.com'', cu_password = ''Secret1A'',
                   cu_role = None \<rparr>"

definition demo_store :: store where
  "demo_store = \<lparr> users = [alice, bob], articles = [doc1, doc2], users_seq = 3,
                   articles_seq = 3 \<rparr>"

text \<open>
  A store with 23 active accounts, created at times 1 to 23.
\<close>

definition numbered_user :: "nat \<Rightarrow> user_row" where
  "numbered_user n = \<lparr> uid = int n, username = replicate n (CHR ''u''),
                        email = replicate n (CHR ''u'') @ ''@x.com'',
                        password = demo_hash ''s'' ''Secret1A'', role = RoleUser,
                        createdAt = n, updatedAt = n, deletedAt = None \<rparr>"

definition store23 :: store where
  "store23 = \<lparr> users = map numbered_user [1..<24], articles = [], users_seq = 24,
                 articles_seq = 1 \<rparr>"

definition page_request :: "int option \<Rightarrow> int option \<Rightarrow> UserQueryOptions" where
  "page_request p l = \<lparr> q_page = p, q_limit = l, q_search = None, q_role = None,
                         q_sortBy = None, q_sortOrder = None \<rparr>"

text \<open>Query strings that set the limit only.\<close>

definition limit_query :: "string \<Rightarrow> user_query" where
  "limit_query l = \<lparr> uq_page = None, uq_limit = Some l, uq_search = None, uq_role = None,
                      uq_sortBy = None, uq_sortOrder = None \<rparr>"

definition article_limit_query :: "string \<Rightarrow> article_query" where
  "article_limit_query l = \<lparr> rq_page = None, rq_limit = Some l, rq_userId = None,
                              rq_title = None, rq_sortBy = None, rq_sortOrder = None,
                              rq_includeDeleted = None \<rparr>"

section \<open>Lookups\<close>

lemmas demo_defs = demo_store_def alice_def bob_def doc1_def doc2_def

lemmas eval_defs = deleteUser_def deleteArticle_def restoreUser_def restoreArticle_def
  User_findByPk_def User_findOne_def Article_findByPk_def Article_findOne_def visible_def
  User_destroy_def Article_destroy_def User_restore_def Article_restore_def
  user_state_def article_state_def not_author_def truthy_num_def truthy_str_def
  instance_of_def Let_def

lemmas create_defs = createArticle_def createUser_def Article_create_def User_create_def
  hashPassword_def next_id_def

lemma find_map_same_key:
  assumes "\<And>r. key (f r) = key r"
  shows "find (\<lambda>r. key r = i) (map f xs) = map_option f (find (\<lambda>r. key r = i) xs)"
  using assms by (induction xs) auto

lemma find_conj_distinct:
  "distinct (map key xs) \<Longrightarrow>
   find (\<lambda>r. P r \<and> key r = i) xs =
     (case find (\<lambda>r. key r = i) xs of None \<Rightarrow> None | Some r \<Rightarrow> if P r then Some r else None)"
proof (induction xs)
  case Nil
  then show ?case by simp
next
  case (Cons x xs)
  show ?case
  proof (cases "key x = i")
    case True
    with Cons.prems have "i \<notin> key ` set xs" by auto
    then have "find (\<lambda>r. P r \<and> key r = i) xs = None"
      by (auto simp: find_None_iff)
    with True show ?thesis by simp
  next
    case False
    with Cons show ?thesis by simp
  qed
qed

lemma User_findByPk_all: "User_findByPk False db i = find (\<lambda>r. uid r = i) (users db)"
  by (simp add: User_findByPk_def User_findOne_def visible_def)

lemma User_findByPk_paranoid:
  "User_findByPk True db i = find (\<lambda>r. deletedAt r = None \<and> uid r = i) (users db)"
  by (simp add: User_findByPk_def User_findOne_def visible_def)

lemma Article_findByPk_all: "Article_findByPk False db i = find (\<lambda>r. aid r = i) (articles db)"
  by (simp add: Article_findByPk_def Article_findOne_def visible_def)

lemma Article_findByPk_paranoid:
  "Article_findByPk True db i = find (\<lambda>r. a_deletedAt r = None \<and> aid r = i) (articles db)"
  by (simp add: Article_findByPk_def Article_findOne_def visible_def)

lemma User_findByPk_state:
  "pk_unique db \<Longrightarrow>
   User_findByPk True db i = None \<longleftrightarrow> user_state db i \<noteq> Active"
  by (simp add: User_findByPk_paranoid pk_unique_def user_state_def find_conj_distinct
      split: option.splits)

lemma Article_findByPk_state:
  "pk_unique db \<Longrightarrow>
   Article_findByPk True db i = None \<longleftrightarrow> article_state db i \<noteq> Active"
  by (simp add: Article_findByPk_paranoid pk_unique_def article_state_def find_conj_distinct
      split: option.splits)

lemma User_findByPk_Some_uid: "User_findByPk p db i = Some u \<Longrightarrow> uid u = i"
  by (auto simp: User_findByPk_def User_findOne_def dest: find_Some_iff[THEN iffD1])

lemma Article_findByPk_Some_aid: "Article_findByPk p db i = Some a \<Longrightarrow> aid a = i"
  by (auto simp: Article_findByPk_def Article_findOne_def dest: find_Some_iff[THEN iffD1])

lemma find_Some_holds: "find P xs = Some x \<Longrightarrow> P x \<and> x \<in> set xs"
  by (induction xs) (auto split: if_splits)

lemma user_state_destroy:
  "uid u = i \<Longrightarrow> user_state db i \<noteq> Purged \<Longrightarrow> user_state (User_destroy now u db) i = SoftDeleted"
  by (auto simp: user_state_def User_destroy_def find_map_same_key [where key = uid]
      split: option.splits dest: find_Some_holds)

lemma article_state_destroy:
  "aid a = i \<Longrightarrow> article_state db i \<noteq> Purged
   \<Longrightarrow> article_state (Article_destroy now a db) i = SoftDeleted"
  by (auto simp: article_state_def Article_destroy_def find_map_same_key [where key = aid]
      split: option.splits dest: find_Some_holds)

lemma find_restored:
  assumes k: "\<And>r. key (f r) = key r" and p: "\<And>r. key r = i \<Longrightarrow> P (f r)"
    and n: "\<And>r. key r \<noteq> i \<Longrightarrow> f r = r"
  shows "find (\<lambda>r. P r \<and> key r = i) (map f xs) = map_option f (find (\<lambda>r. key r = i) xs)"
proof (induction xs)
  case Nil
  show ?case by simp
next
  case (Cons x xs)
  show ?case
  proof (cases "key x = i")
    case True
    then have "P (f x) \<and> key (f x) = i" by (simp add: k p)
    with True show ?thesis by simp
  next
    case False
    then have "f x = x" by (rule n)
    with False Cons.IH show ?thesis by simp
  qed
qed

lemma user_state_cases:
  "user_state db i = Purged \<longleftrightarrow> User_findByPk False db i = None"
  "user_state db i = Active \<longleftrightarrow> (\<exists>u. User_findByPk False db i = Some u \<and> deletedAt u = None)"
  "user_state db i = SoftDeleted \<longleftrightarrow> (\<exists>u. User_findByPk False db i = Some u \<and> deletedAt u \<noteq> None)"
  by (auto simp: user_state_def User_findByPk_all split: option.splits)

lemma article_state_cases:
  "article_state db i = Purged \<longleftrightarrow> Article_findByPk False db i = None"
  "article_state db i = Active \<longleftrightarrow> (\<exists>u. Article_findByPk False db i = Some u \<and> a_deletedAt u = None)"
  "article_state db i = SoftDeleted \<longleftrightarrow> (\<exists>u. Article_findByPk False db i = Some u \<and> a_deletedAt u \<noteq> None)"
  by (auto simp: article_state_def Article_findByPk_all split: option.splits)

lemma User_restore_refetch:
  assumes "User_findByPk False db i = Some u"
  shows "User_findByPk True (User_restore now u db) i
         = Some (u\<lparr>deletedAt := None, updatedAt := now\<rparr>)"
proof -
  from assms have i: "uid u = i" by (rule User_findByPk_Some_uid)
  let ?f = "\<lambda>r. if uid r = uid u then r\<lparr>deletedAt := None, updatedAt := now\<rparr> else r"
  have "find (\<lambda>r. deletedAt r = None \<and> uid r = i) (map ?f (users db))
        = map_option ?f (find (\<lambda>r. uid r = i) (users db))"
    by (rule find_restored) (auto simp: i)
  with assms i show ?thesis
    by (simp add: User_findByPk_paranoid User_findByPk_all User_restore_def)
qed

lemma user_state_restore:
  assumes "User_findByPk False db i = Some u"
  shows "user_state (User_restore now u db) i = Active"
proof -
  from assms have i: "uid u = i" by (rule User_findByPk_Some_uid)
  with assms show ?thesis
    by (auto simp: user_state_def User_restore_def User_findByPk_all
        find_map_same_key [where key = uid])
qed

lemma article_state_restore:
  assumes "Article_findByPk False db i = Some a"
  shows "article_state (Article_restore now a db) i = Active"
proof -
  from assms have i: "aid a = i" by (rule Article_findByPk_Some_aid)
  with assms show ?thesis
    by (auto simp: article_state_def Article_restore_def Article_findByPk_all
        find_map_same_key [where key = aid])
qed

lemma article_state_forceDelete:
  "fst (forceDeleteArticle db i) = Inr () \<Longrightarrow> article_state (snd (forceDeleteArticle db i)) i = Purged"
proof -
  assume "fst (forceDeleteArticle db i) = Inr ()"
  then obtain a where a: "Article_findByPk False db i = Some a"
    by (auto simp: forceDeleteArticle_def split: option.splits)
  then have "aid a = i" by (rule Article_findByPk_Some_aid)
  then have "find (\<lambda>r. aid r = i) (filter (\<lambda>r. aid r \<noteq> aid a) (articles db)) = None"
    by (auto simp: find_None_iff)
  with a show ?thesis by (simp add: forceDeleteArticle_def article_state_def)
qed

lemma User_destroy_stamp:
  assumes "User_findByPk True db i = Some u"
  shows "\<exists>r. User_findByPk False (User_destroy now u db) i = Some r \<and> deletedAt r = Some now"
proof -
  from assms have i: "uid u = i" by (rule User_findByPk_Some_uid)
  from assms have "u \<in> set (users db)"
    by (auto simp: User_findByPk_paranoid dest: find_Some_holds)
  with i have "find (\<lambda>r. uid r = i) (users db) \<noteq> None"
    by (auto simp: find_None_iff)
  then obtain x where x: "find (\<lambda>r. uid r = i) (users db) = Some x" by blast
  then have "uid x = i" by (auto dest: find_Some_holds)
  with x i show ?thesis
    by (simp add: User_findByPk_all User_destroy_def find_map_same_key [where key = uid])
qed

lemma Article_destroy_stamp:
  assumes "Article_findByPk True db i = Some a"
  shows "\<exists>r. Article_findByPk False (Article_destroy now a db) i = Some r
             \<and> a_deletedAt r = Some now"
proof -
  from assms have i: "aid a = i" by (rule Article_findByPk_Some_aid)
  from assms have "a \<in> set (articles db)"
    by (auto simp: Article_findByPk_paranoid dest: find_Some_holds)
  with i have "find (\<lambda>r. aid r = i) (articles db) \<noteq> None"
    by (auto simp: find_None_iff)
  then obtain x where x: "find (\<lambda>r. aid r = i) (articles db) = Some x" by blast
  then have "aid x = i" by (auto dest: find_Some_holds)
  with x i show ?thesis
    by (simp add: Article_findByPk_all Article_destroy_def find_map_same_key [where key = aid])
qed

section \<open>Primary keys stay unique\<close>

text \<open>
  The fresh store has unique primary keys, and every operation of the two services keeps
  them unique: an INSERT takes the next AUTO_INCREMENT value, which no row has, and the
  UPDATE and DELETE statements leave the identifiers of the remaining rows alone.
\<close>

lemma pk_unique_fresh_store: "pk_unique fresh_store"
  by (simp add: pk_unique_def fresh_store_def)

lemma fold_max_ge: "(s::int) \<le> fold max xs s"
proof (induction xs arbitrary: s)
  case Nil
  show ?case by simp
next
  case (Cons x xs)
  have "s \<le> max x s" by simp
  also have "max x s \<le> fold max xs (max x s)" by (rule Cons.IH)
  finally show ?case by simp
qed

lemma fold_max_upper: "x \<in> set xs \<Longrightarrow> (x::int) \<le> fold max xs s"
proof (induction xs arbitrary: s)
  case Nil
  then show ?case by simp
next
  case (Cons y ys)
  show ?case
  proof (cases "x = y")
    case True
    have "x \<le> max y s" using True by simp
    also have "max y s \<le> fold max ys (max y s)" by (rule fold_max_ge)
    finally show ?thesis by simp
  next
    case False
    with Cons.prems have "x \<in> set ys" by simp
    then have "x \<le> fold max ys (max y s)" by (rule Cons.IH)
    then show ?thesis by simp
  qed
qed

lemma next_id_fresh: "next_id seq ids \<notin> set ids"
proof
  assume "next_id seq ids \<in> set ids"
  then have "next_id seq ids + 1 \<in> set (map (\<lambda>i. i + 1) ids)" by simp
  then have "next_id seq ids + 1 \<le> fold max (map (\<lambda>i. i + 1) ids) seq"
    by (rule fold_max_upper)
  then show False by (simp add: next_id_def)
qed

lemma comp_same_key:
  assumes "\<And>r. key (f r) = key r"
  shows "key \<circ> f = key"
  by (rule ext) (simp add: assms)

lemma pk_unique_User_create:
  assumes "pk_unique db"
  shows "pk_unique (snd (User_create L salt now db un em pw rl))"
proof -
  have "next_id (users_seq db) (map uid (users db)) \<notin> set (map uid (users db))"
    by (rule next_id_fresh)
  with assms show ?thesis
    by (auto simp: User_create_def pk_unique_def Let_def)
qed

lemma pk_unique_Article_create:
  assumes "pk_unique db"
  shows "pk_unique (snd (Article_create now db t c owner))"
proof -
  have "next_id (articles_seq db) (map aid (articles db)) \<notin> set (map aid (articles db))"
    by (rule next_id_fresh)
  with assms show ?thesis
    by (auto simp: Article_create_def pk_unique_def Let_def)
qed

lemma pk_unique_users_map:
  assumes "pk_unique db" and "\<And>r. uid (f r) = uid r"
  shows "pk_unique (db\<lparr>users := map f (users db)\<rparr>)"
  using assms(1) by (simp add: pk_unique_def comp_same_key [of uid f, OF assms(2)])

lemma pk_unique_articles_map:
  assumes "pk_unique db" and "\<And>r. aid (f r) = aid r"
  shows "pk_unique (db\<lparr>articles := map f (articles db)\<rparr>)"
  using assms(1) by (simp add: pk_unique_def comp_same_key [of aid f, OF assms(2)])

lemma pk_unique_createUser:
  assumes "pk_unique db"
  shows "pk_unique (snd (createUser L s1 s2 now db d))"
proof -
  let ?c = "User_create L s2 now db (cu_username d) (cu_email d)
              (bcrypt_hash L s1 (cu_password d))
              (case cu_role d of None \<Rightarrow> RoleUser | Some r \<Rightarrow> r)"
  have "snd (createUser L s1 s2 now db d) = db \<or> snd (createUser L s1 s2 now db d) = snd ?c"
    by (auto simp: createUser_def Let_def split: option.splits sum.splits prod.splits)
  with assms pk_unique_User_create [OF assms] show ?thesis by auto
qed

lemma pk_unique_createArticle:
  assumes "pk_unique db"
  shows "pk_unique (snd (createArticle now db d))"
proof -
  have "snd (createArticle now db d) = db
        \<or> snd (createArticle now db d)
            = snd (Article_create now db (ca_title d) (ca_content d) (ca_userId d))"
    by (auto simp: createArticle_def split: option.splits)
  with assms pk_unique_Article_create [OF assms] show ?thesis by auto
qed

lemma pk_unique_deleteUser: "pk_unique db \<Longrightarrow> pk_unique (snd (deleteUser now db i))"
  by (auto simp: deleteUser_def User_destroy_def split: option.splits
      intro!: pk_unique_users_map)

lemma pk_unique_restoreUser: "pk_unique db \<Longrightarrow> pk_unique (snd (restoreUser now db i))"
  by (auto simp: restoreUser_def User_restore_def Let_def split: option.splits
      intro!: pk_unique_users_map)

lemma pk_unique_deleteArticle:
  "pk_unique db \<Longrightarrow> pk_unique (snd (deleteArticle now db i actor))"
  by (auto simp: deleteArticle_def Article_destroy_def split: option.splits
      intro!: pk_unique_articles_map)

lemma pk_unique_restoreArticle:
  "pk_unique db \<Longrightarrow> pk_unique (snd (restoreArticle now db i))"
  by (auto simp: restoreArticle_def Article_restore_def split: option.splits
      intro!: pk_unique_articles_map)

lemma pk_unique_forceDeleteArticle:
  "pk_unique db \<Longrightarrow> pk_unique (snd (forceDeleteArticle db i))"
  by (auto simp: forceDeleteArticle_def pk_unique_def distinct_map_filter split: option.splits)

lemma pk_unique_updateArticle:
  assumes "pk_unique db"
  shows "pk_unique (snd (updateArticle now db i d actor))"
proof -
  have u: "pk_unique (snd (Article_update now a d db))" for a
    using assms
    by (auto simp: Article_update_def Let_def intro!: pk_unique_articles_map)
  have "snd (updateArticle now db i d actor) = db
        \<or> (\<exists>a. snd (updateArticle now db i d actor) = snd (Article_update now a d db))"
    by (auto simp: updateArticle_def split: option.splits)
  with assms u show ?thesis by auto
qed

lemma pk_unique_updateUser:
  assumes "pk_unique db"
  shows "pk_unique (snd (updateUser L s1 s2 now db i d))"
proof (cases "User_findByPk True db i")
  case None
  with assms show ?thesis by (simp add: updateUser_def)
next
  case (Some user)
  let ?d = "if truthy_str (uu_password d)
            then d\<lparr>uu_password := Some (bcrypt_hash L s1 (the (uu_password d)))\<rparr> else d"
  have u: "pk_unique (snd (User_update L s2 now user ?d db))"
    using assms
    by (auto simp: User_update_def Let_def intro!: pk_unique_users_map)
  obtain res db' where r: "User_update L s2 now user ?d db = (res, db')" by fastforce
  with Some have "snd (updateUser L s1 s2 now db i d) = db
        \<or> snd (updateUser L s1 s2 now db i d) = db'"
    by (cases res) (simp_all add: updateUser_def Let_def)
  with assms u r show ?thesis by auto
qed

section \<open>Account statistics\<close>

lemma User_count_paranoid:
  "User_count True cond db = length (filter (\<lambda>r. deletedAt r = None \<and> cond r) (users db))"
  by (simp add: User_count_def visible_def)

lemma User_count_all:
  "User_count False cond db = length (filter cond (users db))"
  by (simp add: User_count_def visible_def)

lemma length_filter_pos: "x \<in> set xs \<Longrightarrow> P x \<Longrightarrow> 0 < length (filter P xs)"
  by (induction xs) auto

text \<open>
  C10. \<^verbatim>\<open>getUserStats\<close>: \<open>total\<close> and \<open>active\<close> are both the number of rows whose
  \<^verbatim>\<open>deletedAt\<close> is null, since \<^verbatim>\<open>User.count()\<close> is taken with the default (paranoid) scope;
  \<open>deleted\<close> is the number of soft-deleted rows; so \<open>total\<close> differs from
  \<open>active + deleted\<close> as soon as one account is soft-deleted.
\<close>

theorem getUserStats_total_is_active:
  "total (getUserStats db) = active (getUserStats db)
   \<and> total (getUserStats db) = length (filter (\<lambda>r. deletedAt r = None) (users db))
   \<and> deleted (getUserStats db) = length (filter (\<lambda>r. deletedAt r \<noteq> None) (users db))
   \<and> ((\<exists>r \<in> set (users db). deletedAt r \<noteq> None)
        \<longrightarrow> total (getUserStats db) \<noteq> active (getUserStats db) + deleted (getUserStats db))"
proof -
  have t: "total (getUserStats db) = length (filter (\<lambda>r. deletedAt r = None) (users db))"
    by (simp add: getUserStats_def User_count_paranoid)
  have a: "active (getUserStats db) = length (filter (\<lambda>r. deletedAt r = None) (users db))"
    by (simp add: getUserStats_def User_count_paranoid)
  have d: "deleted (getUserStats db) = length (filter (\<lambda>r. deletedAt r \<noteq> None) (users db))"
    by (simp add: getUserStats_def User_count_all)
  have "0 < deleted (getUserStats db)" if "\<exists>r \<in> set (users db). deletedAt r \<noteq> None"
  proof -
    from that obtain r where "r \<in> set (users db)" and "deletedAt r \<noteq> None" by blast
    then have "0 < length (filter (\<lambda>r. deletedAt r \<noteq> None) (users db))"
      by (rule length_filter_pos)
    then show ?thesis by (simp only: d)
  qed
  with t a d show ?thesis by auto
qed

theorem getUserStats_total_is_active_witness:
  "total (getUserStats demo_store) = 1 \<and> active (getUserStats demo_store) = 1
   \<and> deleted (getUserStats demo_store) = 1
   \<and> total (getUserStats demo_store)
       \<noteq> active (getUserStats demo_store) + deleted (getUserStats demo_store)"
proof -
  have "bob \<in> set (users demo_store)" "deletedAt bob \<noteq> None"
    by (simp_all add: demo_store_def bob_def)
  then have "\<exists>r \<in> set (users demo_store). deletedAt r \<noteq> None" by blast
  with getUserStats_total_is_active [of demo_store] show ?thesis
    by (simp add: demo_store_def alice_def bob_def)
qed


section \<open>Soft delete\<close>

text \<open>
  C3, as the code has it. \<^verbatim>\<open>deleteUser\<close> and \<^verbatim>\<open>deleteArticle\<close> look the record up with
  the default (paranoid) \<^verbatim>\<open>findByPk\<close>, which does not see a soft-deleted row. On a store
  whose primary keys are unique, the soft delete succeeds exactly on an Active record and
  leaves it SoftDeleted; on a SoftDeleted or absent record it fails with the not-found
  error and the store is unchanged, so \<^verbatim>\<open>deletedAt\<close> is not stamped again.
\<close>

theorem softDelete_needs_active:
  assumes "pk_unique db"
  shows "(user_state db i = Active \<longrightarrow>
            fst (deleteUser now db i) = Inr True
            \<and> user_state (snd (deleteUser now db i)) i = SoftDeleted
            \<and> (\<exists>r. User_findByPk False (snd (deleteUser now db i)) i = Some r
                     \<and> deletedAt r = Some now))
       \<and> (user_state db i \<noteq> Active \<longrightarrow> deleteUser now db i = (Inl UserNotFound, db))
       \<and> (article_state db j = Active \<longrightarrow>
            fst (deleteArticle now db j None) = Inr ()
            \<and> article_state (snd (deleteArticle now db j None)) j = SoftDeleted
            \<and> (\<exists>r. Article_findByPk False (snd (deleteArticle now db j None)) j = Some r
                     \<and> a_deletedAt r = Some now))
       \<and> (article_state db j \<noteq> Active \<longrightarrow>
            deleteArticle now db j actor = (Inl ArticleNotFound, db))"
proof -
  have A: "fst (deleteUser now db i) = Inr True
            \<and> user_state (snd (deleteUser now db i)) i = SoftDeleted
            \<and> (\<exists>r. User_findByPk False (snd (deleteUser now db i)) i = Some r
                     \<and> deletedAt r = Some now)"
    if a: "user_state db i = Active"
  proof -
    from a assms obtain u where u: "User_findByPk True db i = Some u"
      using User_findByPk_state [of db i] by auto
    then have 1: "fst (deleteUser now db i) = Inr True" by (simp add: deleteUser_def)
    from u have "uid u = i" by (rule User_findByPk_Some_uid)
    with a u have 2: "user_state (snd (deleteUser now db i)) i = SoftDeleted"
      by (simp add: deleteUser_def user_state_destroy)
    from User_destroy_stamp [OF u, of now] u
    have 3: "\<exists>r. User_findByPk False (snd (deleteUser now db i)) i = Some r
                  \<and> deletedAt r = Some now"
      by (simp add: deleteUser_def)
    from 1 2 3 show ?thesis by blast
  qed
  have B: "deleteUser now db i = (Inl UserNotFound, db)" if "user_state db i \<noteq> Active"
  proof -
    from that assms have "User_findByPk True db i = None" by (simp add: User_findByPk_state)
    then show ?thesis by (simp add: deleteUser_def)
  qed
  have C: "fst (deleteArticle now db j None) = Inr ()
            \<and> article_state (snd (deleteArticle now db j None)) j = SoftDeleted
            \<and> (\<exists>r. Article_findByPk False (snd (deleteArticle now db j None)) j = Some r
                     \<and> a_deletedAt r = Some now)"
    if a: "article_state db j = Active"
  proof -
    from a assms obtain x where x: "Article_findByPk True db j = Some x"
      using Article_findByPk_state [of db j] by auto
    then have 1: "fst (deleteArticle now db j None) = Inr ()"
      by (simp add: deleteArticle_def not_author_def truthy_num_def)
    from x have "aid x = j" by (rule Article_findByPk_Some_aid)
    with a x have 2: "article_state (snd (deleteArticle now db j None)) j = SoftDeleted"
      by (simp add: deleteArticle_def not_author_def truthy_num_def article_state_destroy)
    from Article_destroy_stamp [OF x, of now] x
    have 3: "\<exists>r. Article_findByPk False (snd (deleteArticle now db j None)) j = Some r
                  \<and> a_deletedAt r = Some now"
      by (simp add: deleteArticle_def not_author_def truthy_num_def)
    from 1 2 3 show ?thesis by blast
  qed
  have D: "deleteArticle now db j actor = (Inl ArticleNotFound, db)"
    if "article_state db j \<noteq> Active"
  proof -
    from that assms have "Article_findByPk True db j = None"
      by (simp add: Article_findByPk_state)
    then show ?thesis by (simp add: deleteArticle_def)
  qed
  from A B C D show ?thesis by blast
qed

theorem softDelete_needs_active_witness:
  "pk_unique demo_store
   \<and> user_state demo_store 1 = Active
   \<and> fst (deleteUser 9 demo_store 1) = Inr True
   \<and> user_state (snd (deleteUser 9 demo_store 1)) 1 = SoftDeleted
   \<and> user_state demo_store 2 = SoftDeleted
   \<and> deleteUser 9 demo_store 2 = (Inl UserNotFound, demo_store)
   \<and> article_state demo_store 1 = Active
   \<and> fst (deleteArticle 9 demo_store 1 None) = Inr ()
   \<and> article_state demo_store 2 = SoftDeleted
   \<and> deleteArticle 9 demo_store 2 (Some 1) = (Inl ArticleNotFound, demo_store)"
proof -
  have pk: "pk_unique demo_store" by (simp add: pk_unique_def demo_defs)
  have s: "user_state demo_store 1 = Active" "user_state demo_store 2 = SoftDeleted"
    "article_state demo_store 1 = Active" "article_state demo_store 2 = SoftDeleted"
    by (simp_all add: user_state_def article_state_def demo_defs)
  from softDelete_needs_active [OF pk, of 1 9 1 "Some 1"]
    softDelete_needs_active [OF pk, of 2 9 2 "Some 1"] pk s
  show ?thesis by simp
qed


text \<open>
  The claim as stated fails: after a first \<^verbatim>\<open>deleteUser\<close> of the active account 1, a second
  call fails with the not-found error and changes nothing.
\<close>

theorem softDelete_twice_counterexample:
  "fst (deleteUser 8 demo_store 1) = Inr True
   \<and> user_state (snd (deleteUser 8 demo_store 1)) 1 = SoftDeleted
   \<and> deleteUser 9 (snd (deleteUser 8 demo_store 1)) 1
       = (Inl UserNotFound, snd (deleteUser 8 demo_store 1))"
  by (simp add: eval_defs demo_defs)


section \<open>Restore\<close>

lemma restore_cases:
  "(user_state db i = Purged \<longrightarrow> restoreUser now db i = (Inl UserNotFound, db))
   \<and> (user_state db i = Active \<longrightarrow> restoreUser now db i = (Inl UserNotDeleted, db))
   \<and> (user_state db i = SoftDeleted \<longrightarrow>
        (\<exists>v. fst (restoreUser now db i) = Inr (Some v) \<and> inst_id v = i
              \<and> inst_deletedAt v = None)
        \<and> user_state (snd (restoreUser now db i)) i = Active)
   \<and> (article_state db j = Purged \<longrightarrow> restoreArticle now db j = (Inl ArticleNotFound, db))
   \<and> (article_state db j = Active \<longrightarrow> restoreArticle now db j = (Inl ArticleNotDeleted, db))
   \<and> (article_state db j = SoftDeleted \<longrightarrow>
        (\<exists>a. fst (restoreArticle now db j) = Inr a \<and> aid a = j \<and> a_deletedAt a = None)
        \<and> article_state (snd (restoreArticle now db j)) j = Active)
   \<and> (fst (forceDeleteArticle db j) = Inr () \<longrightarrow>
        fst (restoreArticle now (snd (forceDeleteArticle db j)) j) = Inl ArticleNotFound)"
proof (intro conjI impI)
  assume "user_state db i = Purged"
  then show "restoreUser now db i = (Inl UserNotFound, db)"
    by (simp add: user_state_cases restoreUser_def)
next
  assume "user_state db i = Active"
  then show "restoreUser now db i = (Inl UserNotDeleted, db)"
    by (auto simp: user_state_cases restoreUser_def)
next
  assume "user_state db i = SoftDeleted"
  then obtain u where u: "User_findByPk False db i = Some u" "deletedAt u \<noteq> None"
    by (auto simp: user_state_cases)
  from u(1) have i: "uid u = i" by (rule User_findByPk_Some_uid)
  from u i show "\<exists>v. fst (restoreUser now db i) = Inr (Some v) \<and> inst_id v = i
                     \<and> inst_deletedAt v = None"
    by (auto simp: restoreUser_def Let_def User_restore_refetch instance_of_def)
  from u show "user_state (snd (restoreUser now db i)) i = Active"
    by (auto simp: restoreUser_def Let_def user_state_restore)
next
  assume "article_state db j = Purged"
  then show "restoreArticle now db j = (Inl ArticleNotFound, db)"
    by (simp add: article_state_cases restoreArticle_def)
next
  assume "article_state db j = Active"
  then show "restoreArticle now db j = (Inl ArticleNotDeleted, db)"
    by (auto simp: article_state_cases restoreArticle_def)
next
  assume "article_state db j = SoftDeleted"
  then obtain a where a: "Article_findByPk False db j = Some a" "a_deletedAt a \<noteq> None"
    by (auto simp: article_state_cases)
  from a(1) have j: "aid a = j" by (rule Article_findByPk_Some_aid)
  from a j show "\<exists>a. fst (restoreArticle now db j) = Inr a \<and> aid a = j \<and> a_deletedAt a = None"
    by (auto simp: restoreArticle_def)
  from a show "article_state (snd (restoreArticle now db j)) j = Active"
    by (auto simp: restoreArticle_def article_state_restore)
next
  assume "fst (forceDeleteArticle db j) = Inr ()"
  then have "article_state (snd (forceDeleteArticle db j)) j = Purged"
    by (rule article_state_forceDelete)
  then show "fst (restoreArticle now (snd (forceDeleteArticle db j)) j) = Inl ArticleNotFound"
    by (simp add: article_state_cases restoreArticle_def)
qed


text \<open>
  C6. \<^verbatim>\<open>restoreUser\<close> and \<^verbatim>\<open>restoreArticle\<close> look the record up with
  \<^verbatim>\<open>paranoid: false\<close>. They fail with the not-found error when no row has the identifier
  (never created, or purged: after a successful \<^verbatim>\<open>forceDeleteArticle\<close> the restore fails
  so), fail with the not-deleted error when the row is Active, and succeed when it is
  SoftDeleted, returning the record with \<^verbatim>\<open>deletedAt\<close> cleared and leaving it Active.
  The three states are exhaustive, so the restore succeeds if and only if the record is
  SoftDeleted.
\<close>

theorem restore_iff_soft_deleted:
  "((\<exists>v. fst (restoreUser now db i) = Inr v) = (user_state db i = SoftDeleted))
   \<and> ((\<exists>a. fst (restoreArticle now db j) = Inr a) = (article_state db j = SoftDeleted))
   \<and> (user_state db i = Purged \<longrightarrow> restoreUser now db i = (Inl UserNotFound, db))
   \<and> (user_state db i = Active \<longrightarrow> restoreUser now db i = (Inl UserNotDeleted, db))
   \<and> (user_state db i = SoftDeleted \<longrightarrow>
        (\<exists>v. fst (restoreUser now db i) = Inr (Some v) \<and> inst_id v = i
              \<and> inst_deletedAt v = None)
        \<and> user_state (snd (restoreUser now db i)) i = Active)
   \<and> (article_state db j = Purged \<longrightarrow> restoreArticle now db j = (Inl ArticleNotFound, db))
   \<and> (article_state db j = Active \<longrightarrow> restoreArticle now db j = (Inl ArticleNotDeleted, db))
   \<and> (article_state db j = SoftDeleted \<longrightarrow>
        (\<exists>a. fst (restoreArticle now db j) = Inr a \<and> aid a = j \<and> a_deletedAt a = None)
        \<and> article_state (snd (restoreArticle now db j)) j = Active)
   \<and> (fst (forceDeleteArticle db j) = Inr () \<longrightarrow>
        fst (restoreArticle now (snd (forceDeleteArticle db j)) j) = Inl ArticleNotFound)"
proof -
  note c = restore_cases [of db i now j]
  have u: "(\<exists>v. fst (restoreUser now db i) = Inr v) = (user_state db i = SoftDeleted)"
  proof (cases "user_state db i")
    case Active
    with c have "fst (restoreUser now db i) = Inl UserNotDeleted" by simp
    with Active show ?thesis by simp
  next
    case SoftDeleted
    with c obtain v where "fst (restoreUser now db i) = Inr (Some v)" by blast
    with SoftDeleted show ?thesis by simp
  next
    case Purged
    with c have "fst (restoreUser now db i) = Inl UserNotFound" by simp
    with Purged show ?thesis by simp
  qed
  have a: "(\<exists>a. fst (restoreArticle now db j) = Inr a) = (article_state db j = SoftDeleted)"
  proof (cases "article_state db j")
    case Active
    with c have "fst (restoreArticle now db j) = Inl ArticleNotDeleted" by simp
    with Active show ?thesis by simp
  next
    case SoftDeleted
    with c obtain x where "fst (restoreArticle now db j) = Inr x" by blast
    with SoftDeleted show ?thesis by simp
  next
    case Purged
    with c have "fst (restoreArticle now db j) = Inl ArticleNotFound" by simp
    with Purged show ?thesis by simp
  qed
  from u a c show ?thesis by (intro conjI) blast+
qed

theorem restore_iff_soft_deleted_witness:
  "user_state demo_store 7 = Purged
   \<and> restoreUser 9 demo_store 7 = (Inl UserNotFound, demo_store)
   \<and> user_state demo_store 1 = Active
   \<and> restoreUser 9 demo_store 1 = (Inl UserNotDeleted, demo_store)
   \<and> user_state demo_store 2 = SoftDeleted
   \<and> (\<exists>v. fst (restoreUser 9 demo_store 2) = Inr (Some v) \<and> inst_id v = 2
            \<and> inst_deletedAt v = None)
   \<and> user_state (snd (restoreUser 9 demo_store 2)) 2 = Active
   \<and> article_state demo_store 2 = SoftDeleted
   \<and> article_state (snd (restoreArticle 9 demo_store 2)) 2 = Active
   \<and> fst (forceDeleteArticle demo_store 2) = Inr ()
   \<and> fst (restoreArticle 9 (snd (forceDeleteArticle demo_store 2)) 2) = Inl ArticleNotFound"
proof -
  have s: "user_state demo_store 7 = Purged" "user_state demo_store 1 = Active"
    "user_state demo_store 2 = SoftDeleted" "article_state demo_store 2 = SoftDeleted"
    by (simp_all add: user_state_def article_state_def demo_defs)
  have f: "fst (forceDeleteArticle demo_store 2) = Inr ()"
    by (simp add: forceDeleteArticle_def Article_findByPk_def Article_findOne_def visible_def
        demo_defs)
  from restore_iff_soft_deleted [of 9 demo_store 7 2] restore_iff_soft_deleted [of 9 demo_store 1 2]
    restore_iff_soft_deleted [of 9 demo_store 2 2] s f
  show ?thesis by simp
qed



section \<open>The owner of a new document\<close>

lemma User_findOne_None:
  "User_findOne True cond db = None \<longleftrightarrow> (\<forall>r \<in> set (users db). deletedAt r = None \<longrightarrow> \<not> cond r)"
  by (auto simp: User_findOne_def visible_def find_None_iff)

lemma Article_findOne_None:
  "Article_findOne True cond db = None
   \<longleftrightarrow> (\<forall>r \<in> set (articles db). a_deletedAt r = None \<longrightarrow> \<not> cond r)"
  by (auto simp: Article_findOne_def visible_def find_None_iff)

lemma User_findByPk_None:
  "User_findByPk True db i = None
   \<longleftrightarrow> \<not> (\<exists>u \<in> set (users db). uid u = i \<and> deletedAt u = None)"
  by (auto simp: User_findByPk_def User_findOne_None)

lemma Article_create_error_unchanged:
  "fst (Article_create now db t c owner) = Inl e \<Longrightarrow> snd (Article_create now db t c owner) = db"
  by (auto simp: Article_create_def Let_def split: if_splits)

lemma Article_create_not_UserNotFound:
  "fst (Article_create now db t c owner) \<noteq> Inl UserNotFound"
  by (auto simp: Article_create_def Let_def split: if_splits)

lemma createArticle_error_unchanged:
  "fst (createArticle now db d) = Inl e \<Longrightarrow> snd (createArticle now db d) = db"
  by (auto simp: createArticle_def Article_create_error_unchanged split: option.splits)


text \<open>
  C7, as the code has it. \<^verbatim>\<open>createArticle\<close> checks the owner with the default (paranoid)
  \<^verbatim>\<open>User.findByPk\<close>: it fails with the owner-not-found error exactly when no Active
  account has the given \<^verbatim>\<open>userId\<close> (on a store with unique primary keys: exactly when the
  account is not Active, that is SoftDeleted or absent), and then no row is written.
\<close>

theorem createArticle_parent_guard:
  "(fst (createArticle now db d) = Inl UserNotFound)
     = (\<not> (\<exists>u \<in> set (users db). uid u = ca_userId d \<and> deletedAt u = None))
   \<and> (fst (createArticle now db d) = Inl UserNotFound \<longrightarrow> snd (createArticle now db d) = db)
   \<and> (pk_unique db \<longrightarrow>
        (fst (createArticle now db d) = Inl UserNotFound) = (user_state db (ca_userId d) \<noteq> Active))"
proof -
  have a: "(fst (createArticle now db d) = Inl UserNotFound)
           = (User_findByPk True db (ca_userId d) = None)"
    by (auto simp: createArticle_def Article_create_not_UserNotFound split: option.splits)
  have b: "snd (createArticle now db d) = db" if "fst (createArticle now db d) = Inl UserNotFound"
    using that by (rule createArticle_error_unchanged)
  have c: "(User_findByPk True db (ca_userId d) = None) = (user_state db (ca_userId d) \<noteq> Active)"
    if "pk_unique db"
    using that by (rule User_findByPk_state)
  from a b c show ?thesis by (simp add: User_findByPk_None)
qed



theorem createArticle_parent_guard_witness:
  "pk_unique demo_store \<and> user_state demo_store 7 = Purged
   \<and> createArticle 9 demo_store \<lparr>ca_title = ''T3'', ca_content = ''third body'', ca_userId = 7\<rparr>
       = (Inl UserNotFound, demo_store)"
proof -
  let ?d = "\<lparr>ca_title = ''T3'', ca_content = ''third body'', ca_userId = 7\<rparr>"
  have pk: "pk_unique demo_store" by (simp add: pk_unique_def demo_defs)
  have s: "user_state demo_store 7 = Purged" by (simp add: user_state_def demo_defs)
  from createArticle_parent_guard [of 9 demo_store ?d] pk s
  have "fst (createArticle 9 demo_store ?d) = Inl UserNotFound"
    and "snd (createArticle 9 demo_store ?d) = demo_store"
    by simp_all
  with pk s show ?thesis by (simp add: prod_eq_iff)
qed

text \<open>
  The claim as stated fails: the soft-deleted account 2 is not accepted as an owner.
\<close>

theorem createArticle_soft_deleted_owner_counterexample:
  "user_state demo_store 2 = SoftDeleted
   \<and> createArticle 9 demo_store \<lparr>ca_title = ''T3'', ca_content = ''third body'', ca_userId = 2\<rparr>
       = (Inl UserNotFound, demo_store)"
  by (simp add: eval_defs create_defs demo_defs)

section \<open>Ownership of a document\<close>

lemma Article_update_not_NoPermission:
  "fst (Article_update now a d db) \<noteq> Inl NoPermissionUpdate"
  by (auto simp: Article_update_def Let_def split: if_splits)

lemma not_author_absent [simp]: "\<not> not_author None a" "\<not> not_author (Some 0) a"
  "\<not> not_author (Some (userId a)) a"
  by (simp_all add: not_author_def truthy_num_def)

lemma not_author_other: "actor \<noteq> 0 \<Longrightarrow> actor \<noteq> userId a \<Longrightarrow> not_author (Some actor) a"
  by (auto simp: not_author_def truthy_num_def)


text \<open>
  C9, as the code has it. The test is \<^verbatim>\<open>userId && article.userId !== userId\<close>, so the
  actor counts as supplied when it is truthy. For a document the default lookup finds: a
  nonzero actor that is not the owner makes \<^verbatim>\<open>updateArticle\<close> and \<^verbatim>\<open>deleteArticle\<close> fail
  with the no-permission error and the store is unchanged; with no actor, or the actor 0,
  ownership is not checked: the update behaves as for the owner and never fails with the
  no-permission error, and the delete succeeds.
\<close>

theorem ownership_checked_for_truthy_actor:
  assumes "Article_findByPk True db i = Some a"
  shows "(actor \<noteq> 0 \<and> actor \<noteq> userId a \<longrightarrow>
            updateArticle now db i d (Some actor) = (Inl NoPermissionUpdate, db)
            \<and> deleteArticle now db i (Some actor) = (Inl NoPermissionDelete, db))
       \<and> updateArticle now db i d None = updateArticle now db i d (Some (userId a))
       \<and> updateArticle now db i d (Some 0) = updateArticle now db i d None
       \<and> fst (updateArticle now db i d None) \<noteq> Inl NoPermissionUpdate
       \<and> deleteArticle now db i None = (Inr (), Article_destroy now a db)
       \<and> deleteArticle now db i (Some 0) = (Inr (), Article_destroy now a db)"
proof (intro conjI impI)
  assume "actor \<noteq> 0 \<and> actor \<noteq> userId a"
  then have n: "not_author (Some actor) a" by (simp add: not_author_other)
  from assms n show "updateArticle now db i d (Some actor) = (Inl NoPermissionUpdate, db)"
    by (simp add: updateArticle_def)
  from assms n show "deleteArticle now db i (Some actor) = (Inl NoPermissionDelete, db)"
    by (simp add: deleteArticle_def)
next
  from assms show "updateArticle now db i d None = updateArticle now db i d (Some (userId a))"
    by (simp add: updateArticle_def)
  from assms show "updateArticle now db i d (Some 0) = updateArticle now db i d None"
    by (simp add: updateArticle_def)
  from assms show "fst (updateArticle now db i d None) \<noteq> Inl NoPermissionUpdate"
    by (simp add: updateArticle_def Article_update_not_NoPermission)
  from assms show "deleteArticle now db i None = (Inr (), Article_destroy now a db)"
    by (simp add: deleteArticle_def)
  from assms show "deleteArticle now db i (Some 0) = (Inr (), Article_destroy now a db)"
    by (simp add: deleteArticle_def)
qed

theorem ownership_checked_for_truthy_actor_witness:
  "Article_findByPk True demo_store 1 = Some doc1
   \<and> updateArticle 9 demo_store 1 \<lparr>ua_title = None, ua_content = Some ''changed''\<rparr> (Some 2)
       = (Inl NoPermissionUpdate, demo_store)
   \<and> deleteArticle 9 demo_store 1 (Some 2) = (Inl NoPermissionDelete, demo_store)
   \<and> deleteArticle 9 demo_store 1 None = (Inr (), Article_destroy 9 doc1 demo_store)"
proof -
  have f: "Article_findByPk True demo_store 1 = Some doc1"
    by (simp add: eval_defs demo_defs)
  have o: "(2::int) \<noteq> 0 \<and> 2 \<noteq> userId doc1" by (simp add: doc1_def)
  from ownership_checked_for_truthy_actor [OF f, of 2 9 "\<lparr>ua_title = None, ua_content = Some ''changed''\<rparr>"] f o
  show ?thesis by simp
qed



text \<open>
  The claim as stated fails: the actor 0 is supplied and is not the owner (account 1) of
  document 1, and both mutations proceed.
\<close>

theorem ownership_zero_actor_counterexample:
  "Article_findByPk True demo_store 1 = Some doc1 \<and> userId doc1 = 1
   \<and> fst (deleteArticle 9 demo_store 1 (Some 0)) = Inr ()
   \<and> article_state (snd (deleteArticle 9 demo_store 1 (Some 0))) 1 = SoftDeleted
   \<and> fst (updateArticle 9 demo_store 1 \<lparr>ua_title = None, ua_content = Some ''changed''\<rparr> (Some 0))
       = Inr (doc1\<lparr>content := ''changed'', a_updatedAt := 9\<rparr>)"
  by (simp add: eval_defs demo_defs updateArticle_def Article_update_def)


section \<open>Unique values\<close>

lemma User_create_error_unchanged:
  "fst (User_create L salt now db un em pw rl) = Inl e
   \<Longrightarrow> snd (User_create L salt now db un em pw rl) = db"
  by (auto simp: User_create_def Let_def split: if_splits)

lemma createUser_error_unchanged:
  assumes "fst (createUser L s1 s2 now db d) = Inl e"
  shows "snd (createUser L s1 s2 now db d) = db"
proof -
  let ?c = "User_create L s2 now db (cu_username d) (cu_email d)
              (bcrypt_hash L s1 (cu_password d))
              (case cu_role d of None \<Rightarrow> RoleUser | Some r \<Rightarrow> r)"
  obtain res db' where c: "?c = (res, db')" by fastforce
  have "db' = db" if "res = Inl e'" for e'
    using User_create_error_unchanged [of L s2 now db "cu_username d" "cu_email d"
        "bcrypt_hash L s1 (cu_password d)" "case cu_role d of None \<Rightarrow> RoleUser | Some r \<Rightarrow> r" e']
      c that by simp
  with assms c show ?thesis
    by (auto simp: createUser_def Let_def split: option.splits sum.splits)
qed

lemma Article_create_held:
  assumes "\<exists>r \<in> set (articles db). title r = t"
  shows "Article_create now db t c owner
         = (Inl (if 3 \<le> length t \<and> length t \<le> 50 then UniqueConstraintError
                 else ValidationError), db)"
proof -
  from assms have "list_ex (\<lambda>r. title r = t \<or> content r = c) (articles db)"
    by (auto simp: list_ex_iff)
  then show ?thesis by (simp add: Article_create_def)
qed

lemma User_create_held:
  assumes "\<exists>r \<in> set (users db). username r = un \<or> email r = em"
  shows "User_create L salt now db un em pw rl
         = (Inl (if 3 \<le> length un \<and> length un \<le> 50 \<and> isEmail L em then UniqueConstraintError
                 else ValidationError), db)"
proof -
  from assms have "list_ex (\<lambda>r. username r = un \<or> email r = em) (users db)"
    by (auto simp: list_ex_iff)
  then show ?thesis by (auto simp: User_create_def)
qed

lemma createArticle_held:
  assumes held: "\<exists>r \<in> set (articles db). title r = ca_title d"
    and owner: "User_findByPk True db (ca_userId d) \<noteq> None"
  shows "createArticle now db d =
           (Inl (if \<exists>r \<in> set (articles db). title r = ca_title d \<and> a_deletedAt r = None
                 then TitleExists
                 else if 3 \<le> length (ca_title d) \<and> length (ca_title d) \<le> 50
                 then UniqueConstraintError else ValidationError), db)"
proof (cases "\<exists>r \<in> set (articles db). title r = ca_title d \<and> a_deletedAt r = None")
  case True
  then have "Article_findOne True (\<lambda>r. title r = ca_title d) db \<noteq> None"
    by (auto simp: Article_findOne_None)
  with True owner show ?thesis by (auto simp: createArticle_def)
next
  case False
  then have "Article_findOne True (\<lambda>r. title r = ca_title d) db = None"
    by (auto simp: Article_findOne_None)
  moreover have "Article_create now db (ca_title d) (ca_content d) (ca_userId d)
        = (Inl (if 3 \<le> length (ca_title d) \<and> length (ca_title d) \<le> 50
                then UniqueConstraintError else ValidationError), db)"
    using held by (rule Article_create_held)
  ultimately show ?thesis using False owner
    by (auto simp: createArticle_def)
qed

lemma createUser_held:
  assumes held: "\<exists>r \<in> set (users db). email r = cu_email d \<or> username r = cu_username d"
  shows "createUser L s1 s2 now db d =
           (Inl (if \<exists>r \<in> set (users db). email r = cu_email d \<and> deletedAt r = None
                 then EmailRegistered
                 else if \<exists>r \<in> set (users db). username r = cu_username d \<and> deletedAt r = None
                 then UsernameUsed
                 else if 3 \<le> length (cu_username d) \<and> length (cu_username d) \<le> 50
                         \<and> isEmail L (cu_email d)
                 then UniqueConstraintError else ValidationError), db)"
proof (cases "\<exists>r \<in> set (users db). email r = cu_email d \<and> deletedAt r = None")
  case True
  then have "User_findOne True (\<lambda>r. email r = cu_email d) db \<noteq> None"
    by (auto simp: User_findOne_None)
  with True show ?thesis by (auto simp: createUser_def)
next
  case False
  then have e: "User_findOne True (\<lambda>r. email r = cu_email d) db = None"
    by (auto simp: User_findOne_None)
  show ?thesis
  proof (cases "\<exists>r \<in> set (users db). username r = cu_username d \<and> deletedAt r = None")
    case True
    then have "User_findOne True (\<lambda>r. username r = cu_username d) db \<noteq> None"
      by (auto simp: User_findOne_None)
    with True False e show ?thesis by (auto simp: createUser_def)
  next
    case no: False
    then have u: "User_findOne True (\<lambda>r. username r = cu_username d) db = None"
      by (auto simp: User_findOne_None)
    from held have h: "\<exists>r \<in> set (users db). username r = cu_username d \<or> email r = cu_email d"
      by blast
    have c: "User_create L s2 now db (cu_username d) (cu_email d)
               (bcrypt_hash L s1 (cu_password d))
               (case cu_role d of None \<Rightarrow> RoleUser | Some r \<Rightarrow> r)
             = (Inl (if 3 \<le> length (cu_username d) \<and> length (cu_username d) \<le> 50
                        \<and> isEmail L (cu_email d)
                     then UniqueConstraintError else ValidationError), db)"
      using h by (rule User_create_held)
    have "createUser L s1 s2 now db d
          = (Inl (if 3 \<le> length (cu_username d) \<and> length (cu_username d) \<le> 50
                     \<and> isEmail L (cu_email d)
                  then UniqueConstraintError else ValidationError), db)"
      unfolding createUser_def e u Let_def c by simp
    with False no show ?thesis by simp
  qed
qed



text \<open>
  C2, as the code has it. Creating a record whose unique value is held by an existing row
  (in any lifecycle state) always fails and writes nothing. The service's own guard is a
  default (paranoid) \<^verbatim>\<open>findOne\<close>, so it reports the duplicate only when an Active row
  holds the value (for accounts the e-mail is checked before the username; for documents
  the owner is checked first). When only soft-deleted rows hold the value the guard
  passes, and the write is rejected by the model's validators or, when they pass, by the
  table's unique index.
\<close>

theorem unique_value_not_reusable:
  "((\<exists>r \<in> set (articles db). title r = ca_title d) \<longrightarrow>
      (\<exists>e. createArticle now db d = (Inl e, db))
      \<and> (User_findByPk True db (ca_userId d) \<noteq> None \<longrightarrow>
           createArticle now db d =
             (Inl (if \<exists>r \<in> set (articles db). title r = ca_title d \<and> a_deletedAt r = None
                   then TitleExists
                   else if 3 \<le> length (ca_title d) \<and> length (ca_title d) \<le> 50
                   then UniqueConstraintError else ValidationError), db)))
   \<and> ((\<exists>r \<in> set (users db). email r = cu_email u \<or> username r = cu_username u) \<longrightarrow>
        createUser L s1 s2 now db u =
          (Inl (if \<exists>r \<in> set (users db). email r = cu_email u \<and> deletedAt r = None
                then EmailRegistered
                else if \<exists>r \<in> set (users db). username r = cu_username u \<and> deletedAt r = None
                then UsernameUsed
                else if 3 \<le> length (cu_username u) \<and> length (cu_username u) \<le> 50
                        \<and> isEmail L (cu_email u)
                then UniqueConstraintError else ValidationError), db))"
proof (intro conjI impI)
  assume held: "\<exists>r \<in> set (articles db). title r = ca_title d"
  show "\<exists>e. createArticle now db d = (Inl e, db)"
  proof (cases "User_findByPk True db (ca_userId d)")
    case None
    then show ?thesis by (simp add: createArticle_def)
  next
    case (Some x)
    then have "User_findByPk True db (ca_userId d) \<noteq> None" by simp
    with held have "createArticle now db d =
             (Inl (if \<exists>r \<in> set (articles db). title r = ca_title d \<and> a_deletedAt r = None
                   then TitleExists
                   else if 3 \<le> length (ca_title d) \<and> length (ca_title d) \<le> 50
                   then UniqueConstraintError else ValidationError), db)"
      by (rule createArticle_held)
    then show ?thesis by blast
  qed
next
  assume "\<exists>r \<in> set (articles db). title r = ca_title d"
    and "User_findByPk True db (ca_userId d) \<noteq> None"
  then show "createArticle now db d =
             (Inl (if \<exists>r \<in> set (articles db). title r = ca_title d \<and> a_deletedAt r = None
                   then TitleExists
                   else if 3 \<le> length (ca_title d) \<and> length (ca_title d) \<le> 50
                   then UniqueConstraintError else ValidationError), db)"
    by (rule createArticle_held)
next
  assume "\<exists>r \<in> set (users db). email r = cu_email u \<or> username r = cu_username u"
  then show "createUser L s1 s2 now db u =
          (Inl (if \<exists>r \<in> set (users db). email r = cu_email u \<and> deletedAt r = None
                then EmailRegistered
                else if \<exists>r \<in> set (users db). username r = cu_username u \<and> deletedAt r = None
                then UsernameUsed
                else if 3 \<le> length (cu_username u) \<and> length (cu_username u) \<le> 50
                        \<and> isEmail L (cu_email u)
                then UniqueConstraintError else ValidationError), db)"
    by (rule createUser_held)
qed

theorem unique_value_not_reusable_witness:
  "createArticle 9 demo_store \<lparr>ca_title = ''T1'', ca_content = ''new body'', ca_userId = 1\<rparr>
     = (Inl TitleExists, demo_store)
   \<and> createArticle 9 demo_store \<lparr>ca_title = ''Old'', ca_content = ''new body'', ca_userId = 1\<rparr>
     = (Inl UniqueConstraintError, demo_store)
   \<and> createUser demo_libs ''s3'' ''s4'' 9 demo_store
         \<lparr>cu_username = ''robert'', cu_email = ''a@x.com'', cu_password = ''Secret3C'',
          cu_role = None\<rparr>
     = (Inl EmailRegistered, demo_store)
   \<and> createUser demo_libs ''s3'' ''s4'' 9 demo_store
         \<lparr>cu_username = ''bob'', cu_email = ''r@x.com'', cu_password = ''Secret3C'',
          cu_role = None\<rparr>
     = (Inl UniqueConstraintError, demo_store)"
proof -
  let ?d1 = "\<lparr>ca_title = ''T1'', ca_content = ''new body'', ca_userId = 1\<rparr>"
  let ?d2 = "\<lparr>ca_title = ''Old'', ca_content = ''new body'', ca_userId = 1\<rparr>"
  let ?u1 = "\<lparr>cu_username = ''robert'', cu_email = ''a@x.com'', cu_password = ''Secret3C'',
              cu_role = None\<rparr>"
  let ?u2 = "\<lparr>cu_username = ''bob'', cu_email = ''r@x.com'', cu_password = ''Secret3C'',
              cu_role = None\<rparr>"
  have o: "User_findByPk True demo_store 1 \<noteq> None" by (simp add: eval_defs demo_defs)
  from unique_value_not_reusable [of demo_store ?d1 9 ?u1 demo_libs "''s3''" "''s4''"]
    unique_value_not_reusable [of demo_store ?d2 9 ?u2 demo_libs "''s3''" "''s4''"] o
  show ?thesis by (simp add: demo_defs demo_libs_def)
qed


text \<open>
  The claim as stated fails: for a title (an e-mail) held by a soft-deleted row only, the
  guard finds nothing and the failure is the unique index's, not the guard's duplicate
  error.
\<close>

theorem unique_guard_misses_soft_deleted_counterexample:
  "title doc1 = ''T1'' \<and> user_state demo_store 7 = Purged
   \<and> createArticle 9 demo_store \<lparr>ca_title = ''T1'', ca_content = ''new body'', ca_userId = 7\<rparr>
       = (Inl UserNotFound, demo_store)
   \<and> title doc2 = ''Old'' \<and> article_state demo_store 2 = SoftDeleted
   \<and> Article_findOne True (\<lambda>r. title r = ''Old'') demo_store = None
   \<and> createArticle 9 demo_store \<lparr>ca_title = ''Old'', ca_content = ''new body'', ca_userId = 1\<rparr>
       = (Inl UniqueConstraintError, demo_store)
   \<and> email bob = ''b@x.com'' \<and> user_state demo_store 2 = SoftDeleted
   \<and> User_findOne True (\<lambda>r. email r = ''b@x.com'') demo_store = None
   \<and> createUser demo_libs ''s3'' ''s4'' 9 demo_store
         \<lparr>cu_username = ''robert'', cu_email = ''b@x.com'', cu_password = ''Secret3C'',
          cu_role = None\<rparr>
       = (Inl UniqueConstraintError, demo_store)"
  by (simp add: eval_defs create_defs demo_defs demo_libs_def)



section \<open>Authentication\<close>

lemma length_demo_salt: "length (demo_salt s) = 22"
  by (simp add: demo_salt_def)

lemma drop_demo_hash: "drop 29 (demo_hash s d) = d"
  by (simp add: demo_hash_def length_demo_salt)

lemma length_demo_hash: "length (demo_hash s d) = 29 + length d"
  by (simp add: demo_hash_def length_demo_salt)

lemma demo_compare_hash: "demo_compare d' (demo_hash s d) = (d' = d)"
proof -
  have "take 7 (demo_hash s d) = ''$2a$10$''" by (simp add: demo_hash_def)
  then show ?thesis
    by (auto simp: demo_compare_def drop_demo_hash length_demo_hash)
qed

lemma demo_hash_no_fixpoint: "demo_hash s d \<noteq> d"
proof
  assume "demo_hash s d = d"
  then have "length (demo_hash s d) = length d" by simp
  then show False by (simp add: length_demo_hash)
qed

lemma demo_libs_ok: "bcrypt_ok demo_libs"
  by (simp add: bcrypt_ok_def demo_libs_def demo_compare_hash demo_hash_no_fixpoint)

lemma User_findOne_refetch:
  assumes "User_findOne True cond db = Some u"
  shows "\<exists>r. User_findByPk True db (uid u) = Some r \<and> deletedAt r = None"
proof -
  from assms have u: "u \<in> set (users db)" "deletedAt u = None"
    by (auto simp: User_findOne_def visible_def dest: find_Some_holds)
  then have "User_findByPk True db (uid u) \<noteq> None"
    by (auto simp: User_findByPk_None)
  then obtain r where r: "User_findByPk True db (uid u) = Some r" by blast
  then have "deletedAt r = None"
    by (auto simp: User_findByPk_paranoid dest: find_Some_holds)
  with r show ?thesis by blast
qed


text \<open>
  C4, as the code has it. \<^verbatim>\<open>validatePassword\<close> looks the account up with the default
  (paranoid) \<^verbatim>\<open>findOne\<close>. It returns \<^verbatim>\<open>null\<close> exactly when that lookup finds no account
  or \<^verbatim>\<open>bcrypt.compare\<close> reports a mismatch against the stored hash of the account found;
  the lookup finds no account exactly when every row holding the e-mail is soft-deleted
  (or none holds it). An account returned has no password attribute and is Active.
\<close>

theorem validatePassword_active_only:
  "(validatePassword L db em pw = None)
     = (case User_findOne True (\<lambda>r. email r = em) db of
          None \<Rightarrow> True
        | Some u \<Rightarrow> \<not> bcrypt_compare L pw (password u))
   \<and> (User_findOne True (\<lambda>r. email r = em) db = None)
       = (\<forall>r \<in> set (users db). email r = em \<longrightarrow> deletedAt r \<noteq> None)
   \<and> (\<forall>v. validatePassword L db em pw = Some v \<longrightarrow>
          inst_password v = None \<and> inst_deletedAt v = None)"
proof (intro conjI allI impI)
  show "(validatePassword L db em pw = None)
     = (case User_findOne True (\<lambda>r. email r = em) db of
          None \<Rightarrow> True
        | Some u \<Rightarrow> \<not> bcrypt_compare L pw (password u))"
  proof (cases "User_findOne True (\<lambda>r. email r = em) db")
    case None
    then show ?thesis by (simp add: validatePassword_def)
  next
    case (Some u)
    from User_findOne_refetch [OF Some] Some show ?thesis
      by (auto simp: validatePassword_def)
  qed
  show "(User_findOne True (\<lambda>r. email r = em) db = None)
       = (\<forall>r \<in> set (users db). email r = em \<longrightarrow> deletedAt r \<noteq> None)"
    by (auto simp: User_findOne_None)
next
  fix v
  assume v: "validatePassword L db em pw = Some v"
  then obtain u where u: "User_findOne True (\<lambda>r. email r = em) db = Some u"
    by (auto simp: validatePassword_def split: option.splits)
  from User_findOne_refetch [OF u] obtain r
    where r: "User_findByPk True db (uid u) = Some r" "deletedAt r = None" by blast
  from v u r have "v = instance_of True r"
    by (auto simp: validatePassword_def split: if_splits)
  with r show "inst_password v = None" and "inst_deletedAt v = None"
    by (simp_all add: instance_of_def)
qed

theorem validatePassword_active_only_witness:
  "User_findOne True (\<lambda>r. email r = ''a@x.com'') demo_store = Some alice
   \<and> bcrypt_compare demo_libs ''Secret1A'' (password alice)
   \<and> validatePassword demo_libs demo_store ''a@x.com'' ''Secret1A'' \<noteq> None
   \<and> \<not> bcrypt_compare demo_libs ''wrong'' (password alice)
   \<and> validatePassword demo_libs demo_store ''a@x.com'' ''wrong'' = None
   \<and> validatePassword demo_libs demo_store ''b@x.com'' ''Secret2B'' = None"
proof -
  have a: "User_findOne True (\<lambda>r. email r = ''a@x.com'') demo_store = Some alice"
    by (simp add: eval_defs demo_defs)
  have c: "bcrypt_compare demo_libs ''Secret1A'' (password alice)"
    "\<not> bcrypt_compare demo_libs ''wrong'' (password alice)"
    by (simp_all add: demo_libs_def alice_def demo_compare_hash)
  have b: "\<forall>r \<in> set (users demo_store). email r = ''b@x.com'' \<longrightarrow> deletedAt r \<noteq> None"
    by (simp add: demo_defs)
  from validatePassword_active_only [of demo_libs demo_store "''a@x.com''" "''Secret1A''"]
    validatePassword_active_only [of demo_libs demo_store "''a@x.com''" "''wrong''"]
    validatePassword_active_only [of demo_libs demo_store "''b@x.com''" "''Secret2B''"] a b c
  show ?thesis by simp
qed



text \<open>
  The claim as stated fails: the soft-deleted account 2 holds the e-mail and its stored
  hash verifies against the credential, and the result is \<^verbatim>\<open>null\<close>.
\<close>

theorem validatePassword_soft_deleted_counterexample:
  "user_state demo_store 2 = SoftDeleted \<and> email bob = ''b@x.com''
   \<and> bcrypt_compare demo_libs ''Secret2B'' (password bob)
   \<and> validatePassword demo_libs demo_store ''b@x.com'' ''Secret2B'' = None"
  by (simp add: eval_defs validatePassword_def demo_defs demo_libs_def demo_compare_hash)


section \<open>The password is hashed twice\<close>

lemma createUser_fresh:
  assumes "isEmail L ''a@x.com''"
  shows "createUser L s1 s2 now fresh_store alice_data =
           (Inr \<lparr> inst_id = 1, inst_username = ''alice'', inst_email = ''a@x.com'',
                  inst_password = Some (bcrypt_hash L s2 (bcrypt_hash L s1 ''Secret1A'')),
                  inst_role = RoleUser, inst_createdAt = now, inst_updatedAt = now,
                  inst_deletedAt = None \<rparr>,
            \<lparr> users = [\<lparr> uid = 1, username = ''alice'', email = ''a@x.com'',
                         password = bcrypt_hash L s2 (bcrypt_hash L s1 ''Secret1A''),
                         role = RoleUser, createdAt = now, updatedAt = now,
                         deletedAt = None \<rparr>],
              articles = [], users_seq = 2, articles_seq = 1 \<rparr>)"
  using assms
  by (simp add: createUser_def User_create_def User_findOne_def hashPassword_def next_id_def
      fresh_store_def alice_data_def instance_of_def Let_def)

lemma bcrypt_double:
  assumes "bcrypt_ok L"
  shows "bcrypt_compare L pw (bcrypt_hash L s2 (bcrypt_hash L s1 d)) = (pw = bcrypt_hash L s1 d)"
    and "\<not> bcrypt_compare L d (bcrypt_hash L s2 (bcrypt_hash L s1 d))"
proof -
  from assms have c1: "\<And>s d. bcrypt_compare L d (bcrypt_hash L s d)"
    and c2: "\<And>s d d'. bcrypt_compare L d' (bcrypt_hash L s d) \<Longrightarrow> d' = d"
    and c3: "\<And>s d. bcrypt_hash L s d \<noteq> d"
    by (auto simp: bcrypt_ok_def)
  have e: "bcrypt_compare L p (bcrypt_hash L s2 (bcrypt_hash L s1 d)) = (p = bcrypt_hash L s1 d)"
    for p
    using c1 c2 by blast
  show "bcrypt_compare L pw (bcrypt_hash L s2 (bcrypt_hash L s1 d)) = (pw = bcrypt_hash L s1 d)"
    by (rule e)
  from c3 [of s1 d] show "\<not> bcrypt_compare L d (bcrypt_hash L s2 (bcrypt_hash L s1 d))"
    by (simp add: e)
qed


text \<open>
  C1. On a fresh store \<^verbatim>\<open>createUser\<close> of alice succeeds and the account is Active, but
  the stored hash is the hash of a hash: the service hashes the password and the model's
  \<^verbatim>\<open>@BeforeCreate\<close> hook hashes the result again. With a hashing library that verifies a
  hash against the data it was computed from and no other, and gives no data as its own
  hash, \<^verbatim>\<open>validatePassword\<close> with the password the account was created with returns
  \<^verbatim>\<open>null\<close>; the only credential it accepts is the intermediate hash.
\<close>

theorem createUser_double_hash:
  assumes "bcrypt_ok L" and "isEmail L ''a@x.com''"
  shows "(\<exists>v. fst (createUser L s1 s2 now fresh_store alice_data) = Inr v
              \<and> inst_email v = ''a@x.com'' \<and> inst_deletedAt v = None)
       \<and> user_state (snd (createUser L s1 s2 now fresh_store alice_data)) 1 = Active
       \<and> validatePassword L (snd (createUser L s1 s2 now fresh_store alice_data))
            ''a@x.com'' ''Secret1A'' = None
       \<and> (validatePassword L (snd (createUser L s1 s2 now fresh_store alice_data))
            ''a@x.com'' pw \<noteq> None) = (pw = bcrypt_hash L s1 ''Secret1A'')"
proof -
  let ?db = "snd (createUser L s1 s2 now fresh_store alice_data)"
  note c = createUser_fresh [OF assms(2), of s1 s2 now]
  have v: "validatePassword L ?db ''a@x.com'' p = None
           \<longleftrightarrow> \<not> bcrypt_compare L p (bcrypt_hash L s2 (bcrypt_hash L s1 ''Secret1A''))" for p
    by (simp add: c validatePassword_def User_findOne_def User_findByPk_def visible_def)
  have "\<exists>v. fst (createUser L s1 s2 now fresh_store alice_data) = Inr v
              \<and> inst_email v = ''a@x.com'' \<and> inst_deletedAt v = None"
    by (simp add: c)
  moreover have "user_state ?db 1 = Active"
    by (simp add: c user_state_def)
  moreover have "validatePassword L ?db ''a@x.com'' ''Secret1A'' = None"
    unfolding v by (rule bcrypt_double(2) [OF assms(1)])
  moreover have "(validatePassword L ?db ''a@x.com'' pw \<noteq> None) = (pw = bcrypt_hash L s1 ''Secret1A'')"
    unfolding v by (simp add: bcrypt_double(1) [OF assms(1)])
  ultimately show ?thesis by blast
qed

theorem createUser_double_hash_witness:
  "bcrypt_ok demo_libs \<and> isEmail demo_libs ''a@x.com''
   \<and> (\<exists>v. fst (createUser demo_libs ''s1'' ''s2'' 1 fresh_store alice_data) = Inr v
           \<and> inst_email v = ''a@x.com'' \<and> inst_deletedAt v = None)
   \<and> validatePassword demo_libs (snd (createUser demo_libs ''s1'' ''s2'' 1 fresh_store alice_data))
        ''a@x.com'' ''Secret1A'' = None
   \<and> validatePassword demo_libs (snd (createUser demo_libs ''s1'' ''s2'' 1 fresh_store alice_data))
        ''a@x.com'' ''wrong'' = None"
proof -
  have e: "isEmail demo_libs ''a@x.com''" by (simp add: demo_libs_def)
  have w: "''wrong'' \<noteq> bcrypt_hash demo_libs ''s1'' ''Secret1A''"
    by (simp add: demo_libs_def demo_hash_def)
  from createUser_double_hash [OF demo_libs_ok e, of "''s1''" "''s2''" 1 "''wrong''"] w
    demo_libs_ok e
  show ?thesis by simp
qed


section \<open>The password attribute of returned accounts\<close>

text \<open>
  C5. \<^verbatim>\<open>createUser\<close> returns the instance \<^verbatim>\<open>User.create\<close> built, which carries the
  stored hash in its \<^verbatim>\<open>password\<close> attribute.
\<close>

theorem createUser_returns_password:
  assumes "fst (createUser L s1 s2 now db d) = Inr v"
  shows "inst_password v = Some (bcrypt_hash L s2 (bcrypt_hash L s1 (cu_password d)))"
  using assms
  by (auto simp: createUser_def User_create_def hashPassword_def instance_of_def Let_def
      split: option.splits if_splits)

theorem createUser_returns_password_witness:
  "\<exists>v. fst (createUser demo_libs ''s1'' ''s2'' 1 fresh_store alice_data) = Inr v
       \<and> inst_password v = Some (demo_hash ''s2'' (demo_hash ''s1'' ''Secret1A''))"
proof -
  have e: "isEmail demo_libs ''a@x.com''" by (simp add: demo_libs_def)
  obtain v where v: "fst (createUser demo_libs ''s1'' ''s2'' 1 fresh_store alice_data) = Inr v"
    by (simp add: createUser_fresh [OF e])
  from createUser_returns_password [OF v] v show ?thesis
    by (simp add: demo_libs_def alice_data_def)
qed


text \<open>
  The other operations refetch the account with \<^verbatim>\<open>attributes: { exclude: ['password'] }\<close>.
\<close>

lemma getUserById_no_password: "getUserById db i = Some v \<Longrightarrow> inst_password v = None"
  by (auto simp: getUserById_def instance_of_def)

lemma restoreUser_no_password:
  "fst (restoreUser now db i) = Inr (Some v) \<Longrightarrow> inst_password v = None"
  by (auto simp: restoreUser_def instance_of_def Let_def split: option.splits if_splits)

lemma updateUser_no_password:
  "fst (updateUser L s1 s2 now db i d) = Inr (Some v) \<Longrightarrow> inst_password v = None"
  by (auto simp: updateUser_def instance_of_def Let_def
      split: option.splits if_splits prod.splits sum.splits)

lemma getUsers_no_password:
  "getUsers L db opts = Inr pg \<Longrightarrow> v \<in> set (pg_users pg) \<Longrightarrow> inst_password v = None"
  by (auto simp: getUsers_def instance_of_def Let_def split: sum.splits prod.splits)


lemma validatePassword_no_password:
  "validatePassword L db em pw = Some v \<Longrightarrow> inst_password v = None"
  by (auto simp: validatePassword_def instance_of_def split: option.splits if_splits)


section \<open>Pagination\<close>

lemmas list_defs = getUsers_def User_findAndCountAll_def whereConditions_def order_by_def
  user_order_def user_key_le_def js_ceil_div_def page_request_def

lemma js_ceil_div_pos:
  assumes "0 < d"
  shows "js_ceil_div n d = Finite \<lceil>real n / real_of_int d\<rceil>"
proof -
  have "\<lceil>real_of_int (int n) / real_of_int d\<rceil> = - (- int n div d)"
    by (rule ceiling_divide_eq_div)
  with assms show ?thesis by (simp add: js_ceil_div_def)
qed

lemma js_ceil_div_zero: "0 < d \<Longrightarrow> js_ceil_div 0 d = Finite 0"
  by (simp add: js_ceil_div_def)

lemma User_findAndCountAll_ok:
  assumes "0 \<le> limit" and "0 \<le> offset"
  shows "User_findAndCountAll L cond f ord limit offset db =
           Inr (take (nat limit) (drop (nat offset)
                  (order_by (user_order L f ord)
                     (filter (\<lambda>r. deletedAt r = None \<and> cond r) (users db)))),
                length (filter (\<lambda>r. deletedAt r = None \<and> cond r) (users db)))"
  using assms by (simp add: User_findAndCountAll_def visible_def Let_def)

lemma store23_eval:
  "getUsers demo_libs store23 (page_request (Some 3) None)
   = Inr \<lparr> pg_users = map (instance_of True) [numbered_user 3, numbered_user 2, numbered_user 1],
           pg_pagination = \<lparr> p_total = 23, p_page = 3, p_limit = 10,
                             p_totalPages = Finite 3 \<rparr> \<rparr>"
  by code_simp


lemma fresh_eval:
  "getUsers demo_libs fresh_store (page_request None None)
   = Inr \<lparr> pg_users = [],
           pg_pagination = \<lparr> p_total = 0, p_page = 1, p_limit = 10,
                             p_totalPages = Finite 0 \<rparr> \<rparr>"
  by (simp add: list_defs eval_defs fresh_store_def)


text \<open>
  Within the bounds the router declares, the service does what is expected of it. Whenever
  the page is at least 1 and the limit is positive, \<^verbatim>\<open>getUsers\<close> succeeds, the accounts
  returned are the slice of the ordered matching rows at offset \<^verbatim>\<open>(page - 1) * limit\<close>, at
  most \<^verbatim>\<open>limit\<close> of them, \<open>total\<close> is the number of matching rows, and \<open>totalPages\<close> is
  the ceiling of \<open>total / limit\<close>, which is 0 when \<open>total\<close> is 0; an absent option is
  page 1, limit 10.
\<close>

lemma getUsers_pagination:
  assumes page: "page = (case q_page opts of None \<Rightarrow> 1 | Some p \<Rightarrow> p)"
    and limit: "limit = (case q_limit opts of None \<Rightarrow> 10 | Some l \<Rightarrow> l)"
    and matching: "matching = filter (\<lambda>r. deletedAt r = None
                       \<and> whereConditions L (q_search opts) (q_role opts) r) (users db)"
    and ordered: "ordered = order_by (user_order L
                       (case q_sortBy opts of None \<Rightarrow> SortCreatedAt | Some f \<Rightarrow> f)
                       (case q_sortOrder opts of None \<Rightarrow> DESC | Some d \<Rightarrow> d)) matching"
    and pos: "1 \<le> page" "0 < limit"
  shows "\<exists>pg. getUsers L db opts = Inr pg
           \<and> pg_users pg = map (instance_of True)
                              (take (nat limit) (drop (nat ((page - 1) * limit)) ordered))
           \<and> length (pg_users pg) \<le> nat limit
           \<and> p_total (pg_pagination pg) = length matching
           \<and> p_page (pg_pagination pg) = page
           \<and> p_limit (pg_pagination pg) = limit
           \<and> p_totalPages (pg_pagination pg) = Finite \<lceil>real (length matching) / real_of_int limit\<rceil>
           \<and> (length matching = 0 \<longrightarrow> p_totalPages (pg_pagination pg) = Finite 0)"
proof -
  from pos have off: "0 \<le> (page - 1) * limit" and lim: "0 \<le> limit" by simp_all
  let ?pg = "\<lparr> pg_users = map (instance_of True)
                              (take (nat limit) (drop (nat ((page - 1) * limit)) ordered)),
              pg_pagination = \<lparr> p_total = length matching, p_page = page, p_limit = limit,
                                p_totalPages = js_ceil_div (length matching) limit \<rparr> \<rparr>"
  have "getUsers L db opts = Inr ?pg"
    unfolding getUsers_def Let_def page [symmetric] limit [symmetric]
    by (simp add: User_findAndCountAll_ok [OF lim off] matching ordered)
  moreover have "js_ceil_div (length matching) limit
                 = Finite \<lceil>real (length matching) / real_of_int limit\<rceil>"
    using pos(2) by (rule js_ceil_div_pos)
  ultimately show ?thesis by simp
qed

lemma getUsers_pagination_example:
  "(\<exists>pg. getUsers demo_libs store23 (page_request (Some 3) None) = Inr pg
         \<and> map inst_id (pg_users pg) = [3, 2, 1]
         \<and> length (pg_users pg) \<le> 10
         \<and> p_total (pg_pagination pg) = 23 \<and> p_page (pg_pagination pg) = 3
         \<and> p_limit (pg_pagination pg) = 10 \<and> p_totalPages (pg_pagination pg) = Finite 3)
   \<and> (\<exists>pg. getUsers demo_libs fresh_store (page_request None None) = Inr pg
         \<and> p_total (pg_pagination pg) = 0 \<and> p_page (pg_pagination pg) = 1
         \<and> p_limit (pg_pagination pg) = 10 \<and> p_totalPages (pg_pagination pg) = Finite 0)"
proof -
  have p3: "(1::int) \<le> (case q_page (page_request (Some 3) None) of None \<Rightarrow> 1 | Some p \<Rightarrow> p)"
    "(0::int) < (case q_limit (page_request (Some 3) None) of None \<Rightarrow> 10 | Some l \<Rightarrow> l)"
    by (simp_all add: page_request_def)
  have p1: "(1::int) \<le> (case q_page (page_request None None) of None \<Rightarrow> 1 | Some p \<Rightarrow> p)"
    "(0::int) < (case q_limit (page_request None None) of None \<Rightarrow> 10 | Some l \<Rightarrow> l)"
    by (simp_all add: page_request_def)
  from getUsers_pagination [OF refl refl refl refl p3, of demo_libs store23]
  obtain pg where a: "getUsers demo_libs store23 (page_request (Some 3) None) = Inr pg"
    and "length (pg_users pg) \<le> 10"
    by (auto simp: page_request_def)
  moreover from a have "pg = \<lparr> pg_users = map (instance_of True)
                                   [numbered_user 3, numbered_user 2, numbered_user 1],
           pg_pagination = \<lparr> p_total = 23, p_page = 3, p_limit = 10,
                             p_totalPages = Finite 3 \<rparr> \<rparr>"
    by (simp add: store23_eval)
  ultimately have A: "\<exists>pg. getUsers demo_libs store23 (page_request (Some 3) None) = Inr pg
         \<and> map inst_id (pg_users pg) = [3, 2, 1]
         \<and> length (pg_users pg) \<le> 10
         \<and> p_total (pg_pagination pg) = 23 \<and> p_page (pg_pagination pg) = 3
         \<and> p_limit (pg_pagination pg) = 10 \<and> p_totalPages (pg_pagination pg) = Finite 3"
    by (simp add: instance_of_def numbered_user_def)
  from getUsers_pagination [OF refl refl refl refl p1, of demo_libs fresh_store]
  have B: "\<exists>pg. getUsers demo_libs fresh_store (page_request None None) = Inr pg
         \<and> p_total (pg_pagination pg) = 0 \<and> p_page (pg_pagination pg) = 1
         \<and> p_limit (pg_pagination pg) = 10 \<and> p_totalPages (pg_pagination pg) = Finite 0"
    by (simp add: fresh_eval)
  from A B show ?thesis by blast
qed


lemma parseInt_minus5: "parseInt (Some ''-5'') = Num (- 5)"
  by (simp add: parseInt_def is_space_def digit_of_def Let_def)

lemma parseInt_0: "parseInt (Some ''0'') = Num 0"
  by (simp add: parseInt_def is_space_def digit_of_def Let_def)

lemma getUsers_negative_limit:
  assumes "q_limit opts = Some n" and "n < 0"
  shows "getUsers L db opts = Inl DatabaseError"
  using assms by (simp add: getUsers_def User_findAndCountAll_def Let_def)

text \<open>
  C8. The coercion to positive integers the claim states is what the router's rules
  (\<^verbatim>\<open>isInt({ min: 1 })\<close>) and the controller's fallbacks aim at, and the code misses it for a
  negative value: \<^verbatim>\<open>UserController.getUsers\<close> passes \<^verbatim>\<open>parseInt(..) || 10\<close>, which replaces
  \<^verbatim>\<open>NaN\<close> and 0 only, and never consults \<^verbatim>\<open>validationResult\<close>. With a negative limit in
  the query string, \<^verbatim>\<open>UserService.getUsers\<close> is called with that negative limit, and the
  listing fails with the datastore's error instead of returning a page.
\<close>

theorem listing_negative_limit_not_coerced:
  assumes "parseInt (uq_limit query) = Num n" and "n < 0"
  shows "UserController_getUsers L db query =
           getUsers L db
             \<lparr> q_page = Some (or_num (parseInt (uq_page query)) 1),
               q_limit = Some n,
               q_search = uq_search query, q_role = uq_role query,
               q_sortBy = Some (case uq_sortBy query of None \<Rightarrow> SortCreatedAt | Some f \<Rightarrow> f),
               q_sortOrder = Some (case uq_sortOrder query of None \<Rightarrow> DESC | Some d \<Rightarrow> d) \<rparr>
       \<and> UserController_getUsers L db query = Inl DatabaseError"
proof -
  from assms have l: "or_num (parseInt (uq_limit query)) 10 = n"
    by (simp add: or_num_def)
  then have a: "UserController_getUsers L db query =
           getUsers L db
             \<lparr> q_page = Some (or_num (parseInt (uq_page query)) 1),
               q_limit = Some n,
               q_search = uq_search query, q_role = uq_role query,
               q_sortBy = Some (case uq_sortBy query of None \<Rightarrow> SortCreatedAt | Some f \<Rightarrow> f),
               q_sortOrder = Some (case uq_sortOrder query of None \<Rightarrow> DESC | Some d \<Rightarrow> d) \<rparr>"
    by (simp add: UserController_getUsers_def)
  have "getUsers L db
             \<lparr> q_page = Some (or_num (parseInt (uq_page query)) 1),
               q_limit = Some n,
               q_search = uq_search query, q_role = uq_role query,
               q_sortBy = Some (case uq_sortBy query of None \<Rightarrow> SortCreatedAt | Some f \<Rightarrow> f),
               q_sortOrder = Some (case uq_sortOrder query of None \<Rightarrow> DESC | Some d \<Rightarrow> d) \<rparr>
        = Inl DatabaseError"
    by (rule getUsers_negative_limit [OF _ assms(2)]) simp
  with a show ?thesis by simp
qed

theorem listing_negative_limit_not_coerced_witness:
  "parseInt (uq_limit (limit_query ''-5'')) = Num (- 5)
   \<and> UserController_getUsers demo_libs store23 (limit_query ''-5'')
       = getUsers demo_libs store23
           \<lparr> q_page = Some 1, q_limit = Some (- 5), q_search = None, q_role = None,
             q_sortBy = Some SortCreatedAt, q_sortOrder = Some DESC \<rparr>
   \<and> UserController_getUsers demo_libs store23 (limit_query ''-5'') = Inl DatabaseError"
proof -
  have p: "parseInt (uq_limit (limit_query ''-5'')) = Num (- 5)"
    by (simp add: limit_query_def parseInt_minus5)
  have n: "(- 5 :: int) < 0" by simp
  have u: "parseInt (uq_page (limit_query ''-5'')) = NotNum"
    by (simp add: limit_query_def parseInt_def)
  from listing_negative_limit_not_coerced [OF p n, of demo_libs store23] p u
  show ?thesis by (auto simp: limit_query_def or_num_def)
qed


text \<open>
  A limit of 0 or a limit that is not a number is replaced by 10 on this path.
\<close>

lemma UserController_getUsers_limit_zero:
  "UserController_getUsers L db (limit_query ''0'') = UserController_getUsers L db (limit_query ''10'')"
  "UserController_getUsers L db (limit_query ''abc'') = UserController_getUsers L db (limit_query ''10'')"
  by (simp_all add: UserController_getUsers_def limit_query_def or_num_def parseInt_def
      is_space_def digit_of_def Let_def)

text \<open>
  \<^verbatim>\<open>ArticleController.getArticles\<close> has no such fallback: a limit of 0 in the query string
  reaches \<^verbatim>\<open>ArticleService.getArticles\<close>, and with no matching row
  \<^verbatim>\<open>Math.ceil(0 / 0)\<close> is \<^verbatim>\<open>NaN\<close>.
\<close>

lemma getArticles_limit_zero:
  "ArticleController_getArticles L fresh_store (article_limit_query ''0'')
     = Inr \<lparr> pg_articles = [],
             pg_article_pagination =
               \<lparr> ap_total = 0, ap_page = Num 1, ap_limit = Num 0, ap_totalPages = NaN \<rparr> \<rparr>"
  by (simp add: ArticleController_getArticles_def article_limit_query_def getArticles_def
      Article_findAndCountAll_def js_offset_def js_ceil_div_int_def js_ceil_div_def
      truthy_str_def parseInt_0 fresh_store_def order_by_def Let_def)


end
